theory Spec2Isabelle
  imports Complex_Main "HOL-Library.Signed_Division" "HOL-Library.Log_Nat"
begin

section \<open>Numeric conventions of the embedding\<close>

text \<open>
  The controller is C code.  Its \<open>int\<close> and \<open>int64_t\<close> values are modelled as HOL
  integers; C's \<open>/\<close> on integers truncates towards zero and is written \<open>sdiv\<close>.
  Signed overflow is undefined in C, so the model agrees with the program on every run
  in which no intermediate \<open>int\<close> leaves the 32-bit range; the bitrate arithmetic of
  \<open>bitrate_update\<close> is done in \<open>int64_t\<close> and cannot overflow for 32-bit inputs.
  A \<open>uint64_t\<close> timestamp is a natural number and its additions are reduced modulo
  \<open>2 ^ 64\<close>.  A cast \<open>(int)x\<close> of a \<open>double\<close> is truncation towards zero.

  A \<open>double\<close> is a real number.  In the adaptive controller (\<open>bitrate_control.c\<close>) it
  is idealised: rounding errors, infinities and NaN are not modelled there.  The AIMD
  balancer (\<open>balancer_aimd.c\<close>) is modelled in IEEE 754 binary64 arithmetic, the \<open>double\<close>
  of the platforms the program is built for: a \<open>double\<close> is a real number that
  \<open>double_round\<close> leaves unchanged (\<open>is_double\<close>), a decimal literal denotes the nearest
  such number, and each arithmetic operation returns its exact result rounded to the
  nearest such number, a tie going to the even significand (\<open>double_mul\<close>,
  \<open>double_add\<close>, \<open>double_sub\<close>).  Every operation is rounded on its own, in 53 bits of
  precision (no fused multiply-add, no extended precision), and the conversion of an
  \<open>int\<close> to \<open>double\<close> is exact.  Results of magnitude \<open>2 ^ 1024\<close> and more
  (infinities) and NaN are not modelled.
\<close>

definition trunc_int :: "real \<Rightarrow> int" where
  "trunc_int x = (if 0 \<le> x then \<lfloor>x\<rfloor> else \<lceil>x\<rceil>)"

text \<open>
  Rounding to the nearest integer, a tie going to the even one.
\<close>

definition round_even :: "real \<Rightarrow> int" where
  "round_even y =
     (let f = \<lfloor>y\<rfloor>; r = y - real_of_int f
      in if r < 1 / 2 then f else if 1 / 2 < r then f + 1 else if even f then f else f + 1)"

text \<open>
  The binary exponent of a non-zero real: the \<open>e\<close> with \<open>2 ^ e \<le> \<bar>x\<bar> < 2 ^ (e + 1)\<close>
  (\<open>bitlen n\<close> is the number of binary digits of \<open>n\<close>).  The unit in the last place
  of a binary64 number of that exponent is \<open>2 ^ (e - 52)\<close>, and \<open>2 ^ (- 1074)\<close> below
  the normal range.
\<close>

definition double_exponent :: "real \<Rightarrow> int" where
  "double_exponent x =
     (if 1 \<le> \<bar>x\<bar> then bitlen \<lfloor>\<bar>x\<bar>\<rfloor> - 1 else - bitlen (\<lceil>1 / \<bar>x\<bar>\<rceil> - 1))"

definition double_ulp :: "real \<Rightarrow> real" where
  "double_ulp x = 2 powi (max (double_exponent x) (- 1022) - 52)"

definition double_round :: "real \<Rightarrow> real" where
  "double_round x =
     (if x = 0 then 0 else real_of_int (round_even (x / double_ulp x)) * double_ulp x)"

definition is_double :: "real \<Rightarrow> bool" where
  "is_double x = (double_round x = x \<and> \<bar>x\<bar> < 2 ^ 1024)"

definition double_mul :: "real \<Rightarrow> real \<Rightarrow> real" where
  "double_mul a b = double_round (a * b)"

definition double_add :: "real \<Rightarrow> real \<Rightarrow> real" where
  "double_add a b = double_round (a + b)"

definition double_sub :: "real \<Rightarrow> real \<Rightarrow> real" where
  "double_sub a b = double_round (a - b)"

abbreviation (input) INT_MAX :: int where "INT_MAX \<equiv> 2147483647"

text \<open>
  The cast \<open>(int)x\<close> is defined in C when the integer part of \<open>x\<close> is an \<open>int\<close>.
\<close>

definition int_castable :: "real \<Rightarrow> bool" where
  "int_castable x = (- 2147483649 < x \<and> x < 2147483648)"

definition u64_of_int :: "int \<Rightarrow> nat" where
  "u64_of_int i = nat (i mod 2 ^ 64)"

definition u64_add :: "nat \<Rightarrow> int \<Rightarrow> nat" where
  "u64_add t i = (t + u64_of_int i) mod 2 ^ 64"

definition round_100k :: "int \<Rightarrow> int" where
  "round_100k b = b sdiv (100 * 1000) * (100 * 1000)"

section \<open>Data model (balancer.h, bitrate\_control.h, config.h)\<close>

text \<open>
  Field names follow the C structs.  Where two structs use the same field name the
  field of the later record carries a short prefix (\<open>cfg_\<close> for \<open>BalancerConfig\<close>,
  \<open>a_\<close> for \<open>AimdState\<close>, \<open>o_\<close> and \<open>res_\<close> for the output records, \<open>ad_\<close>, \<open>am_\<close> and
  \<open>bc_\<close> for the configuration file's structs).  The fields \<open>adaptive\<close> and \<open>aimd\<close> of
  \<open>BelacoderConfig\<close> are \<open>bc_adaptive\<close> and \<open>bc_aimd\<close>.
\<close>

record BalancerConfig =
  cfg_min_bitrate :: int
  cfg_max_bitrate :: int
  cfg_srt_latency :: int
  cfg_srt_pkt_size :: int
  adaptive_incr_step :: int
  adaptive_decr_step :: int
  adaptive_incr_interval :: int
  adaptive_decr_interval :: int
  aimd_incr_step :: int
  aimd_decr_mult :: real
  aimd_incr_interval :: int
  aimd_decr_interval :: int

record BalancerInput =
  buffer_size :: int
  rtt :: real
  send_rate_mbps :: real
  timestamp :: nat
  pkt_loss_total :: int
  pkt_retrans_total :: int

record BalancerOutput =
  new_bitrate :: int
  o_throughput :: real
  o_rtt :: int
  o_rtt_th_min :: int
  o_rtt_th_max :: int
  o_bs :: int
  o_bs_th1 :: int
  o_bs_th2 :: int
  o_bs_th3 :: int

text \<open>
  \<open>BitrateContext\<close> as \<open>bitrate_control.c\<close> uses it: the four configuration fields, the
  tuning parameters set by \<open>bitrate_context_init\<close>, the filters, the loss tracker and
  the two rate-limit deadlines.
\<close>

record BitrateContext =
  min_bitrate :: int
  max_bitrate :: int
  srt_latency :: int
  srt_pkt_size :: int
  incr_step :: int
  decr_step :: int
  incr_interval :: int
  decr_interval :: int
  decr_fast_interval :: int
  cur_bitrate :: int
  bs_avg :: real
  bs_jitter :: real
  prev_bs :: int
  rtt_avg :: real
  rtt_min :: real
  rtt_jitter :: real
  rtt_avg_delta :: real
  prev_rtt :: int
  throughput :: real
  prev_pkt_loss :: int
  prev_pkt_retrans :: int
  loss_rate :: real
  next_bitrate_incr :: nat
  next_bitrate_decr :: nat

record BitrateResult =
  res_new_bitrate :: int
  res_throughput :: real
  res_rtt :: int
  res_rtt_th_min :: int
  res_rtt_th_max :: int
  res_bs :: int
  res_bs_th1 :: int
  res_bs_th2 :: int
  res_bs_th3 :: int

record AimdState =
  a_min_bitrate :: int
  a_max_bitrate :: int
  a_cur_bitrate :: int
  a_srt_latency :: int
  a_incr_step :: int
  a_decr_mult :: real
  a_incr_interval :: int
  a_decr_interval :: int
  rtt_baseline :: real
  next_incr :: nat
  next_decr :: nat

record FixedState =
  fixed_bitrate :: int

text \<open>The opaque \<open>void *\<close> state of an algorithm is one of the three state structs.\<close>

datatype algo_state =
  AdaptiveSt BitrateContext
| AimdSt AimdState
| FixedSt FixedState

text \<open>
  \<open>BalancerAlgorithm\<close>: a name, a description and the function pointers.  \<open>init\<close>
  returns \<open>None\<close> for a NULL state; \<open>step\<close> is \<open>None\<close> where the C code would
  read a state of the wrong struct type.  \<open>cleanup\<close> only frees the state and has no
  counterpart here.
\<close>

record BalancerAlgorithm =
  name :: string
  description :: string
  init :: "BalancerConfig \<Rightarrow> algo_state option"
  step :: "algo_state \<Rightarrow> BalancerInput \<Rightarrow> (BalancerOutput \<times> algo_state) option"

record AdaptiveConfig =
  ad_incr_step :: int
  ad_decr_step :: int
  ad_incr_interval :: int
  ad_decr_interval :: int
  loss_threshold :: real

record AimdConfig =
  am_incr_step :: int
  am_decr_mult :: real
  am_incr_interval :: int
  am_decr_interval :: int

record BelacoderConfig =
  bc_min_bitrate :: int
  bc_max_bitrate :: int
  balancer :: string
  bc_srt_latency :: int
  stream_id :: string
  bc_adaptive :: AdaptiveConfig
  bc_aimd :: AimdConfig

record BalancerRunner =
  algo :: "BalancerAlgorithm option"
  state :: "algo_state option"
  config :: BalancerConfig

section \<open>The adaptive controller (bitrate\_control.c)\<close>

abbreviation (input) MIN_BITRATE :: int where "MIN_BITRATE \<equiv> 300 * 1000"
abbreviation (input) ABS_MAX_BITRATE :: int where "ABS_MAX_BITRATE \<equiv> 30 * 1000 * 1000"
abbreviation (input) BITRATE_INCR_INT :: int where "BITRATE_INCR_INT \<equiv> 500"
abbreviation (input) BITRATE_DECR_INT :: int where "BITRATE_DECR_INT \<equiv> 200"
abbreviation (input) BITRATE_DECR_FAST_INT :: int where "BITRATE_DECR_FAST_INT \<equiv> 250"
abbreviation (input) BITRATE_INCR_MIN :: int where "BITRATE_INCR_MIN \<equiv> 30 * 1000"
abbreviation (input) BITRATE_INCR_SCALE :: int where "BITRATE_INCR_SCALE \<equiv> 30"
abbreviation (input) BITRATE_DECR_MIN :: int where "BITRATE_DECR_MIN \<equiv> 100 * 1000"
abbreviation (input) BITRATE_DECR_SCALE :: int where "BITRATE_DECR_SCALE \<equiv> 10"
abbreviation (input) EMA_SLOW :: real where "EMA_SLOW \<equiv> 0.99"
abbreviation (input) EMA_FAST :: real where "EMA_FAST \<equiv> 0.01"
abbreviation (input) EMA_RTT_DELTA :: real where "EMA_RTT_DELTA \<equiv> 0.8"
abbreviation (input) EMA_RTT_DELTA_NEW :: real where "EMA_RTT_DELTA_NEW \<equiv> 0.2"
abbreviation (input) EMA_THROUGHPUT :: real where "EMA_THROUGHPUT \<equiv> 0.97"
abbreviation (input) EMA_THROUGHPUT_NEW :: real where "EMA_THROUGHPUT_NEW \<equiv> 0.03"
abbreviation (input) RTT_MIN_DRIFT :: real where "RTT_MIN_DRIFT \<equiv> 1.001"
abbreviation (input) RTT_IGNORE_VALUE :: int where "RTT_IGNORE_VALUE \<equiv> 100"
abbreviation (input) RTT_INITIAL :: int where "RTT_INITIAL \<equiv> 300"
abbreviation (input) RTT_MIN_INITIAL :: real where "RTT_MIN_INITIAL \<equiv> 200.0"
abbreviation (input) BS_TH3_MULT :: real where "BS_TH3_MULT \<equiv> 4"
abbreviation (input) BS_TH2_JITTER_MULT :: real where "BS_TH2_JITTER_MULT \<equiv> 3.0"
abbreviation (input) BS_TH1_JITTER_MULT :: real where "BS_TH1_JITTER_MULT \<equiv> 2.5"
abbreviation (input) BS_TH_MIN :: real where "BS_TH_MIN \<equiv> 50"
abbreviation (input) RTT_JITTER_MULT :: real where "RTT_JITTER_MULT \<equiv> 4"
abbreviation (input) RTT_AVG_PERCENT :: real where "RTT_AVG_PERCENT \<equiv> 15"
abbreviation (input) RTT_STABLE_DELTA :: real where "RTT_STABLE_DELTA \<equiv> 0.01"
abbreviation (input) RTT_MIN_JITTER :: real where "RTT_MIN_JITTER \<equiv> 1"
abbreviation (input) LOSS_RATE_THRESHOLD :: real where "LOSS_RATE_THRESHOLD \<equiv> 0.5"
abbreviation (input) EMA_LOSS :: real where "EMA_LOSS \<equiv> 0.9"
abbreviation (input) EMA_LOSS_NEW :: real where "EMA_LOSS_NEW \<equiv> 0.1"

text \<open>
  The integer macros \<open>BS_TH3_MULT\<close>, \<open>BS_TH_MIN\<close>, \<open>RTT_JITTER_MULT\<close>,
  \<open>RTT_AVG_PERCENT\<close> and \<open>RTT_MIN_JITTER\<close> occur only in \<open>double\<close> expressions, where C
  converts them to \<open>double\<close>; they are given as reals.
\<close>

definition min_max :: "int \<Rightarrow> int \<Rightarrow> int \<Rightarrow> int" where
  "min_max a l h = max (min a h) l"

definition bitrate_context_init ::
  "int \<Rightarrow> int \<Rightarrow> int \<Rightarrow> int \<Rightarrow> int \<Rightarrow> int \<Rightarrow> int \<Rightarrow> int \<Rightarrow> BitrateContext" where
  "bitrate_context_init min_br max_br latency pkt_size
       incr_step_arg decr_step_arg incr_interval_arg decr_interval_arg =
     \<lparr> min_bitrate = min_br,
       max_bitrate = max_br,
       srt_latency = latency,
       srt_pkt_size = pkt_size,
       incr_step = (if incr_step_arg > 0 then incr_step_arg else BITRATE_INCR_MIN),
       decr_step = (if decr_step_arg > 0 then decr_step_arg else BITRATE_DECR_MIN),
       incr_interval = (if incr_interval_arg > 0 then incr_interval_arg else BITRATE_INCR_INT),
       decr_interval = (if decr_interval_arg > 0 then decr_interval_arg else BITRATE_DECR_INT),
       decr_fast_interval = BITRATE_DECR_FAST_INT,
       cur_bitrate = max_br,
       bs_avg = 0.0,
       bs_jitter = 0.0,
       prev_bs = 0,
       rtt_avg = 0.0,
       rtt_min = RTT_MIN_INITIAL,
       rtt_jitter = 0.0,
       rtt_avg_delta = 0.0,
       prev_rtt = RTT_INITIAL,
       throughput = 0.0,
       prev_pkt_loss = 0,
       prev_pkt_retrans = 0,
       loss_rate = 0.0,
       next_bitrate_incr = 0,
       next_bitrate_decr = 0 \<rparr>"

text \<open>
  \<open>bitrate_update\<close> mutates the context block by block.  Each block of the C function
  is one definition below, in source order; \<open>bitrate_update\<close> chains them.
\<close>

text \<open>Packet loss tracking.\<close>

definition track_loss :: "BitrateContext \<Rightarrow> int \<Rightarrow> int \<Rightarrow> BitrateContext" where
  "track_loss ctx loss_total retrans_total =
     (let loss_delta = loss_total - prev_pkt_loss ctx;
          retrans_delta = retrans_total - prev_pkt_retrans ctx
      in ctx\<lparr> prev_pkt_loss := loss_total,
              prev_pkt_retrans := retrans_total,
              loss_rate :=
                (if loss_delta > 0 \<or> retrans_delta > 0
                 then loss_rate ctx * EMA_LOSS + real_of_int (loss_delta + retrans_delta) * EMA_LOSS_NEW
                 else loss_rate ctx * EMA_LOSS) \<rparr>)"

definition pkt_loss_congestion :: "BitrateContext \<Rightarrow> bool" where
  "pkt_loss_congestion ctx = (loss_rate ctx > LOSS_RATE_THRESHOLD)"

text \<open>Send buffer size stats.\<close>

definition track_bs :: "BitrateContext \<Rightarrow> int \<Rightarrow> BitrateContext" where
  "track_bs ctx b =
     (let jit = EMA_SLOW * bs_jitter ctx;
          delta_bs = b - prev_bs ctx
      in ctx\<lparr> bs_avg := bs_avg ctx * EMA_SLOW + real_of_int b * EMA_FAST,
              bs_jitter := (if real_of_int delta_bs > jit then real_of_int delta_bs else jit),
              prev_bs := b \<rparr>)"

text \<open>RTT stats: average, average delta, minimum with upward drift, jitter.\<close>

definition track_rtt :: "BitrateContext \<Rightarrow> real \<Rightarrow> BitrateContext" where
  "track_rtt ctx r =
     (let rtt_int = trunc_int r;
          delta_rtt = r - real_of_int (prev_rtt ctx);
          avg_delta = rtt_avg_delta ctx * EMA_RTT_DELTA + delta_rtt * EMA_RTT_DELTA_NEW;
          drifted = rtt_min ctx * RTT_MIN_DRIFT;
          jit = rtt_jitter ctx * EMA_SLOW
      in ctx\<lparr> rtt_avg := (if rtt_avg ctx = 0.0 then r else rtt_avg ctx * EMA_SLOW + EMA_FAST * r),
              rtt_avg_delta := avg_delta,
              prev_rtt := rtt_int,
              rtt_min := (if rtt_int \<noteq> RTT_IGNORE_VALUE \<and> r < drifted \<and> avg_delta < 1.0
                          then r else drifted),
              rtt_jitter := (if delta_rtt > jit then delta_rtt else jit) \<rparr>)"

text \<open>Rolling average of the network throughput.\<close>

definition track_throughput :: "BitrateContext \<Rightarrow> real \<Rightarrow> BitrateContext" where
  "track_throughput ctx rate =
     ctx\<lparr> throughput := throughput ctx * EMA_THROUGHPUT
                          + (rate * 1000.0 * 1000.0 / 1024.0) * EMA_THROUGHPUT_NEW \<rparr>"

text \<open>
  Thresholds, computed from the updated filters.  Each is a \<open>double\<close> expression
  stored into an \<open>int\<close>.  \<open>RTT_TO_BS(ctx, ctx->srt_latency / 2)\<close> expands to
  \<open>(ctx->throughput / 8) * (ctx->srt_latency / 2) / ctx->srt_pkt_size\<close>, whose middle
  factor is an integer division.  (For \<open>srt_pkt_size = 0\<close> the C expression divides by
  zero; here the quotient is 0, and no statement below is about that case.)
\<close>

definition RTT_TO_BS :: "BitrateContext \<Rightarrow> int \<Rightarrow> real" where
  "RTT_TO_BS ctx r = (throughput ctx / 8) * real_of_int r / real_of_int (srt_pkt_size ctx)"

definition bs_th3_of :: "BitrateContext \<Rightarrow> int" where
  "bs_th3_of ctx = trunc_int ((bs_avg ctx + bs_jitter ctx) * BS_TH3_MULT)"

definition bs_th2_of :: "BitrateContext \<Rightarrow> int" where
  "bs_th2_of ctx =
     min (trunc_int (max BS_TH_MIN
                        (bs_avg ctx + max (bs_jitter ctx * BS_TH2_JITTER_MULT) (bs_avg ctx))))
         (trunc_int (RTT_TO_BS ctx (srt_latency ctx sdiv 2)))"

definition bs_th1_of :: "BitrateContext \<Rightarrow> int" where
  "bs_th1_of ctx = trunc_int (max BS_TH_MIN (bs_avg ctx + bs_jitter ctx * BS_TH1_JITTER_MULT))"

definition rtt_th_max_of :: "BitrateContext \<Rightarrow> int" where
  "rtt_th_max_of ctx =
     trunc_int (rtt_avg ctx + max (rtt_jitter ctx * RTT_JITTER_MULT)
                                  (rtt_avg ctx * RTT_AVG_PERCENT / 100))"

definition rtt_th_min_of :: "BitrateContext \<Rightarrow> int" where
  "rtt_th_min_of ctx = trunc_int (rtt_min ctx + max RTT_MIN_JITTER (rtt_jitter ctx * 2))"

text \<open>
  The decision ladder.  It returns the unclamped \<open>int64_t bitrate\<close> and the context
  with the deadline it has set.  \<open>b\<close> is the buffer size, \<open>rtt_int\<close> the truncated RTT,
  \<open>plc\<close> the packet-loss congestion flag.
\<close>

definition emergency :: "BitrateContext \<Rightarrow> int \<Rightarrow> int \<Rightarrow> bool" where
  "emergency ctx b rtt_int = (rtt_int \<ge> srt_latency ctx sdiv 3 \<or> b > bs_th3_of ctx)"

definition decide :: "BitrateContext \<Rightarrow> int \<Rightarrow> int \<Rightarrow> nat \<Rightarrow> bool \<Rightarrow> int \<times> BitrateContext" where
  "decide ctx b rtt_int ts plc =
     (let bitrate = cur_bitrate ctx in
      if bitrate > min_bitrate ctx \<and> emergency ctx b rtt_int
      then (min_bitrate ctx, ctx\<lparr> next_bitrate_decr := u64_add ts (decr_interval ctx) \<rparr>)
      else if ts > next_bitrate_decr ctx \<and>
              (rtt_int > srt_latency ctx sdiv 5 \<or> b > bs_th2_of ctx \<or> plc)
      then (bitrate - (decr_step ctx + bitrate sdiv BITRATE_DECR_SCALE),
            ctx\<lparr> next_bitrate_decr := u64_add ts (decr_fast_interval ctx) \<rparr>)
      else if ts > next_bitrate_decr ctx \<and> (rtt_int > rtt_th_max_of ctx \<or> b > bs_th1_of ctx)
      then (bitrate - decr_step ctx,
            ctx\<lparr> next_bitrate_decr := u64_add ts (decr_interval ctx) \<rparr>)
      else if ts > next_bitrate_incr ctx \<and> rtt_int < rtt_th_min_of ctx \<and>
              rtt_avg_delta ctx < RTT_STABLE_DELTA \<and> \<not> plc
      then (bitrate + (incr_step ctx + bitrate sdiv BITRATE_INCR_SCALE),
            ctx\<lparr> next_bitrate_incr := u64_add ts (incr_interval ctx) \<rparr>)
      else (bitrate, ctx))"

text \<open>
  \<open>bitrate_update\<close>: the return value, the filled \<open>BitrateResult\<close> and the context
  after the call.  (With \<open>result == NULL\<close> the C function skips the second component
  and is otherwise the same.)
\<close>

definition bitrate_update ::
  "BitrateContext \<Rightarrow> int \<Rightarrow> real \<Rightarrow> real \<Rightarrow> nat \<Rightarrow> int \<Rightarrow> int
     \<Rightarrow> int \<times> BitrateResult \<times> BitrateContext" where
  "bitrate_update ctx b r rate ts loss_total retrans_total =
     (let rtt_int = trunc_int r;
          ctx1 = track_loss ctx loss_total retrans_total;
          plc = pkt_loss_congestion ctx1;
          ctx2 = track_bs ctx1 b;
          ctx3 = track_rtt ctx2 r;
          ctx4 = track_throughput ctx3 rate;
          (bitrate, ctx5) = decide ctx4 b rtt_int ts plc;
          ctx6 = ctx5\<lparr> cur_bitrate := min_max bitrate (min_bitrate ctx5) (max_bitrate ctx5) \<rparr>;
          rounded_br = round_100k (cur_bitrate ctx6)
      in (rounded_br,
          \<lparr> res_new_bitrate = rounded_br,
            res_throughput = throughput ctx6,
            res_rtt = rtt_int,
            res_rtt_th_min = rtt_th_min_of ctx4,
            res_rtt_th_max = rtt_th_max_of ctx4,
            res_bs = b,
            res_bs_th1 = bs_th1_of ctx4,
            res_bs_th2 = bs_th2_of ctx4,
            res_bs_th3 = bs_th3_of ctx4 \<rparr>,
          ctx6))"

section \<open>The adaptive balancer (balancer\_adaptive.c)\<close>

text \<open>
  Modelled from the spec: the arguments that the wrapper passes for the tuning parameters
  of \<open>bitrate_context_init\<close> and for the loss counters of \<open>bitrate_update\<close>.  The copy of
  \<open>balancer_adaptive.c\<close> in the tree still calls the two functions with their older,
  shorter parameter lists; against \<open>bitrate_control.c\<close> as it stands the wrapper forwards
  the adaptive tuning fields of \<open>BalancerConfig\<close> and the two cumulative counters of
  \<open>BalancerInput\<close>, as the specification of the runner and of the sample describes.  The
  rest of the wrapper is the code of the file.
\<close>

definition adaptive_init :: "BalancerConfig \<Rightarrow> algo_state option" where
  "adaptive_init cfg =
     Some (AdaptiveSt (bitrate_context_init (cfg_min_bitrate cfg) (cfg_max_bitrate cfg)
                         (cfg_srt_latency cfg) (cfg_srt_pkt_size cfg)
                         (adaptive_incr_step cfg) (adaptive_decr_step cfg)
                         (adaptive_incr_interval cfg) (adaptive_decr_interval cfg)))"

definition adaptive_step :: "algo_state \<Rightarrow> BalancerInput \<Rightarrow> (BalancerOutput \<times> algo_state) option" where
  "adaptive_step st inp =
     (case st of
        AdaptiveSt ctx \<Rightarrow>
          (let (new_br, result, ctx') =
                 bitrate_update ctx (buffer_size inp) (rtt inp) (send_rate_mbps inp)
                   (timestamp inp) (pkt_loss_total inp) (pkt_retrans_total inp)
           in Some (\<lparr> new_bitrate = new_br,
                      o_throughput = res_throughput result,
                      o_rtt = res_rtt result,
                      o_rtt_th_min = res_rtt_th_min result,
                      o_rtt_th_max = res_rtt_th_max result,
                      o_bs = res_bs result,
                      o_bs_th1 = res_bs_th1 result,
                      o_bs_th2 = res_bs_th2 result,
                      o_bs_th3 = res_bs_th3 result \<rparr>,
                    AdaptiveSt ctx'))
      | _ \<Rightarrow> None)"

definition balancer_adaptive :: BalancerAlgorithm where
  "balancer_adaptive =
     \<lparr> name = ''adaptive'',
       description = ''RTT and buffer-based adaptive control (default)'',
       init = adaptive_init,
       step = adaptive_step \<rparr>"

section \<open>The AIMD balancer (balancer\_aimd.c)\<close>

abbreviation (input) AIMD_DEF_INCR_RATE :: int where "AIMD_DEF_INCR_RATE \<equiv> 50 * 1000"
abbreviation (input) AIMD_DEF_DECR_MULT :: real where "AIMD_DEF_DECR_MULT \<equiv> 0.75"
abbreviation (input) AIMD_DEF_INCR_INTERVAL :: int where "AIMD_DEF_INCR_INTERVAL \<equiv> 500"
abbreviation (input) AIMD_DEF_DECR_INTERVAL :: int where "AIMD_DEF_DECR_INTERVAL \<equiv> 200"
abbreviation (input) AIMD_RTT_MULT :: real where "AIMD_RTT_MULT \<equiv> 1.5"
abbreviation (input) AIMD_RTT_BASELINE_EMA :: real where "AIMD_RTT_BASELINE_EMA \<equiv> double_round 0.95"
abbreviation (input) AIMD_BS_THRESHOLD :: int where "AIMD_BS_THRESHOLD \<equiv> 100"

definition aimd_init_state :: "BalancerConfig \<Rightarrow> AimdState" where
  "aimd_init_state cfg =
     \<lparr> a_min_bitrate = cfg_min_bitrate cfg,
       a_max_bitrate = cfg_max_bitrate cfg,
       a_cur_bitrate = cfg_max_bitrate cfg,
       a_srt_latency = cfg_srt_latency cfg,
       a_incr_step = (if aimd_incr_step cfg > 0 then aimd_incr_step cfg else AIMD_DEF_INCR_RATE),
       a_decr_mult = (if aimd_decr_mult cfg > 0.0 then aimd_decr_mult cfg else AIMD_DEF_DECR_MULT),
       a_incr_interval = (if aimd_incr_interval cfg > 0 then aimd_incr_interval cfg
                          else AIMD_DEF_INCR_INTERVAL),
       a_decr_interval = (if aimd_decr_interval cfg > 0 then aimd_decr_interval cfg
                          else AIMD_DEF_DECR_INTERVAL),
       rtt_baseline = 0.0,
       next_incr = 0,
       next_decr = 0 \<rparr>"

definition aimd_init :: "BalancerConfig \<Rightarrow> algo_state option" where
  "aimd_init cfg = Some (AimdSt (aimd_init_state cfg))"

text \<open>
  \<open>aimd_step\<close> on the state struct.  The C function updates the state in four stages,
  each a definition below: the RTT baseline (\<open>aimd_baseline\<close>), the emergency snap, which
  also moves \<open>next_decr\<close> (\<open>aimd_snap\<close>), the multiplicative decrease or additive
  increase (\<open>aimd_adjust\<close>) and the clamp (\<open>aimd_clamp\<close>).  \<open>aimd_congested\<close> is the
  value of the local flag \<open>congested\<close>, read from the state after the baseline update.
  The products and the sum are binary64 operations; the literals \<open>0.75\<close>, \<open>1.5\<close>,
  \<open>1.0\<close> and \<open>0.0\<close> are doubles as they stand, \<open>0.95\<close> is not and stands for the
  nearest double.  The comparisons are exact, and so is the conversion of the integer
  operand of a comparison or a product to \<open>double\<close>.
\<close>

definition aimd_baseline :: "AimdState \<Rightarrow> real \<Rightarrow> AimdState" where
  "aimd_baseline s r =
     s\<lparr> rtt_baseline :=
          (if rtt_baseline s = 0.0 then r
           else if r < rtt_baseline s then r
           else double_add (double_mul (rtt_baseline s) AIMD_RTT_BASELINE_EMA)
                           (double_mul r (double_sub 1.0 AIMD_RTT_BASELINE_EMA))) \<rparr>"

definition aimd_rtt_threshold :: "AimdState \<Rightarrow> int" where
  "aimd_rtt_threshold s = trunc_int (double_mul (rtt_baseline s) AIMD_RTT_MULT)"

definition aimd_emergency :: "AimdState \<Rightarrow> BalancerInput \<Rightarrow> bool" where
  "aimd_emergency s inp = (rtt inp \<ge> real_of_int (a_srt_latency s sdiv 3))"

definition aimd_congested :: "AimdState \<Rightarrow> BalancerInput \<Rightarrow> bool" where
  "aimd_congested s inp =
     (aimd_emergency s inp \<or> rtt inp > real_of_int (aimd_rtt_threshold s)
        \<or> buffer_size inp > AIMD_BS_THRESHOLD)"

definition aimd_snap :: "AimdState \<Rightarrow> BalancerInput \<Rightarrow> AimdState" where
  "aimd_snap s inp =
     (if aimd_emergency s inp
      then s\<lparr> a_cur_bitrate := a_min_bitrate s,
              next_decr := u64_add (timestamp inp) (a_decr_interval s) \<rparr>
      else s)"

definition aimd_adjust :: "AimdState \<Rightarrow> BalancerInput \<Rightarrow> bool \<Rightarrow> AimdState" where
  "aimd_adjust s inp congested =
     (if congested \<and> timestamp inp > next_decr s
      then s\<lparr> a_cur_bitrate := trunc_int (double_mul (real_of_int (a_cur_bitrate s)) (a_decr_mult s)),
              next_decr := u64_add (timestamp inp) (a_decr_interval s) \<rparr>
      else if \<not> congested \<and> timestamp inp > next_incr s
      then s\<lparr> a_cur_bitrate := a_cur_bitrate s + a_incr_step s,
              next_incr := u64_add (timestamp inp) (a_incr_interval s) \<rparr>
      else s)"

definition aimd_clamp :: "AimdState \<Rightarrow> AimdState" where
  "aimd_clamp s =
     s\<lparr> a_cur_bitrate := max (a_min_bitrate s) (min (a_max_bitrate s) (a_cur_bitrate s)) \<rparr>"

definition aimd_update :: "AimdState \<Rightarrow> BalancerInput \<Rightarrow> BalancerOutput \<times> AimdState" where
  "aimd_update s inp =
     (let s1 = aimd_baseline s (rtt inp);
          rtt_threshold = aimd_rtt_threshold s1;
          congested = aimd_congested s1 inp;
          s4 = aimd_clamp (aimd_adjust (aimd_snap s1 inp) inp congested);
          rounded_br = round_100k (a_cur_bitrate s4)
      in (\<lparr> new_bitrate = rounded_br,
            o_throughput = 0,
            o_rtt = trunc_int (rtt inp),
            o_rtt_th_min = trunc_int (rtt_baseline s4),
            o_rtt_th_max = rtt_threshold,
            o_bs = buffer_size inp,
            o_bs_th1 = AIMD_BS_THRESHOLD,
            o_bs_th2 = AIMD_BS_THRESHOLD,
            o_bs_th3 = AIMD_BS_THRESHOLD \<rparr>,
          s4))"

definition aimd_step :: "algo_state \<Rightarrow> BalancerInput \<Rightarrow> (BalancerOutput \<times> algo_state) option" where
  "aimd_step st inp =
     (case st of
        AimdSt s \<Rightarrow> (let (out, s') = aimd_update s inp in Some (out, AimdSt s'))
      | _ \<Rightarrow> None)"

definition balancer_aimd :: BalancerAlgorithm where
  "balancer_aimd =
     \<lparr> name = ''aimd'',
       description = ''Additive Increase Multiplicative Decrease (TCP-style)'',
       init = aimd_init,
       step = aimd_step \<rparr>"

section \<open>The fixed balancer (balancer\_fixed.c)\<close>

definition fixed_init :: "BalancerConfig \<Rightarrow> algo_state option" where
  "fixed_init cfg = Some (FixedSt \<lparr> fixed_bitrate = round_100k (cfg_max_bitrate cfg) \<rparr>)"

definition fixed_step :: "algo_state \<Rightarrow> BalancerInput \<Rightarrow> (BalancerOutput \<times> algo_state) option" where
  "fixed_step st inp =
     (case st of
        FixedSt s \<Rightarrow>
          Some (\<lparr> new_bitrate = fixed_bitrate s,
                  o_throughput = 0,
                  o_rtt = trunc_int (rtt inp),
                  o_rtt_th_min = 0,
                  o_rtt_th_max = 0,
                  o_bs = buffer_size inp,
                  o_bs_th1 = 0,
                  o_bs_th2 = 0,
                  o_bs_th3 = 0 \<rparr>,
                FixedSt s)
      | _ \<Rightarrow> None)"

definition balancer_fixed :: BalancerAlgorithm where
  "balancer_fixed =
     \<lparr> name = ''fixed'',
       description = ''Constant bitrate, no adaptation'',
       init = fixed_init,
       step = fixed_step \<rparr>"

section \<open>The registry (balancer\_registry.c)\<close>

text \<open>
  The NULL-terminated array \<open>algorithms\<close> is a list; the sentinel is the end of the
  list.  A \<open>const char *\<close> argument is a \<open>string option\<close>, \<open>None\<close> for NULL, and
  \<open>strcmp(a, b) == 0\<close> is equality of strings.  A returned pointer into the table is
  \<open>Some\<close> of the entry, NULL is \<open>None\<close>.
\<close>

definition algorithms :: "BalancerAlgorithm list" where
  "algorithms = [balancer_adaptive]"

definition balancer_get_default :: "BalancerAlgorithm option" where
  "balancer_get_default = (case algorithms of [] \<Rightarrow> None | a # _ \<Rightarrow> Some a)"

text \<open>The \<open>for\<close> loop of \<open>balancer_find\<close> over a table.\<close>

fun find_loop :: "BalancerAlgorithm list \<Rightarrow> string \<Rightarrow> BalancerAlgorithm option" where
  "find_loop [] n = None"
| "find_loop (a # as) n = (if name a = n then Some a else find_loop as n)"

definition balancer_find_in :: "BalancerAlgorithm list \<Rightarrow> string option \<Rightarrow> BalancerAlgorithm option" where
  "balancer_find_in table nm = (case nm of None \<Rightarrow> None | Some n \<Rightarrow> find_loop table n)"

definition balancer_find :: "string option \<Rightarrow> BalancerAlgorithm option" where
  "balancer_find nm = balancer_find_in algorithms nm"

definition balancer_list_all :: "BalancerAlgorithm list" where
  "balancer_list_all = algorithms"

section \<open>Configuration defaults (config.c, config.h)\<close>

definition config_bitrate_bps :: "int \<Rightarrow> int" where
  "config_bitrate_bps kbps = kbps * 1000"

definition config_init_defaults :: BelacoderConfig where
  "config_init_defaults =
     \<lparr> bc_min_bitrate = 300,
       bc_max_bitrate = 6000,
       balancer = ''adaptive'',
       bc_srt_latency = 2000,
       stream_id = [],
       bc_adaptive = \<lparr> ad_incr_step = 30, ad_decr_step = 100, ad_incr_interval = 500,
                    ad_decr_interval = 200, loss_threshold = 0.5 \<rparr>,
       bc_aimd = \<lparr> am_incr_step = 50, am_decr_mult = 0.75, am_incr_interval = 500,
                am_decr_interval = 200 \<rparr> \<rparr>"

section \<open>The runner (balancer\_runner.c)\<close>

text \<open>
  Each operation takes the runner struct and returns it as the call leaves it; the
  messages written to \<open>stderr\<close> are not modelled.  \<open>balancer_runner_init\<close> also returns
  its status code.  Where the C code would dereference a NULL \<open>algo\<close> or \<open>state\<close>
  (\<open>balancer_runner_step\<close> on a runner without them, \<open>balancer_runner_init\<close> with an
  empty table) the model has no result: \<open>None\<close>, and for \<open>balancer_runner_init\<close> the
  status \<open>-1\<close> with nothing selected.
\<close>

text \<open>The assignments of \<open>balancer_runner_init\<close> to \<open>runner->config\<close>.\<close>

definition runner_config :: "BalancerConfig \<Rightarrow> BelacoderConfig \<Rightarrow> int \<Rightarrow> int \<Rightarrow> BalancerConfig" where
  "runner_config c cfg latency pkt_size =
     c\<lparr> cfg_min_bitrate := config_bitrate_bps (bc_min_bitrate cfg),
        cfg_max_bitrate := config_bitrate_bps (bc_max_bitrate cfg),
        cfg_srt_latency := latency,
        cfg_srt_pkt_size := pkt_size,
        adaptive_incr_step := config_bitrate_bps (ad_incr_step (bc_adaptive cfg)),
        adaptive_decr_step := config_bitrate_bps (ad_decr_step (bc_adaptive cfg)),
        adaptive_incr_interval := ad_incr_interval (bc_adaptive cfg),
        adaptive_decr_interval := ad_decr_interval (bc_adaptive cfg),
        aimd_incr_step := config_bitrate_bps (am_incr_step (bc_aimd cfg)),
        aimd_decr_mult := am_decr_mult (bc_aimd cfg),
        aimd_incr_interval := am_incr_interval (bc_aimd cfg),
        aimd_decr_interval := am_decr_interval (bc_aimd cfg) \<rparr>"

definition balancer_runner_init ::
  "BalancerRunner \<Rightarrow> BelacoderConfig \<Rightarrow> string option \<Rightarrow> int \<Rightarrow> int \<Rightarrow> int \<times> BalancerRunner" where
  "balancer_runner_init runner cfg algo_name_override latency pkt_size =
     (let r0 = runner\<lparr> algo := None, state := None \<rparr>;
          algo_name = (case algo_name_override of Some n \<Rightarrow> n | None \<Rightarrow> balancer cfg)
      in case (balancer_find (Some algo_name), algo_name_override) of
           (None, Some _) \<Rightarrow> (-1, r0)
         | (found, _) \<Rightarrow>
             (case (case found of None \<Rightarrow> balancer_get_default | Some a \<Rightarrow> Some a) of
                None \<Rightarrow> (-1, r0)
              | Some a \<Rightarrow>
                  (let c = runner_config (config r0) cfg latency pkt_size;
                       r1 = r0\<lparr> algo := Some a, config := c \<rparr>;
                       r2 = r1\<lparr> state := init a c \<rparr>
                   in if state r2 = None then (-2, r2) else (0, r2))))"

definition balancer_runner_step ::
  "BalancerRunner \<Rightarrow> BalancerInput \<Rightarrow> (BalancerOutput \<times> BalancerRunner) option" where
  "balancer_runner_step runner inp =
     (case (algo runner, state runner) of
        (Some a, Some st) \<Rightarrow>
          (case step a st inp of
             None \<Rightarrow> None
           | Some (out, st') \<Rightarrow> Some (out, runner\<lparr> state := Some st' \<rparr>))
      | _ \<Rightarrow> None)"

definition balancer_runner_update_bounds :: "BalancerRunner \<Rightarrow> int \<Rightarrow> int \<Rightarrow> BalancerRunner" where
  "balancer_runner_update_bounds runner min_br max_br =
     (let r1 = runner\<lparr> config := (config runner)\<lparr> cfg_min_bitrate := min_br,
                                                  cfg_max_bitrate := max_br \<rparr> \<rparr>
      in case (algo r1, state r1) of
           (Some a, Some _) \<Rightarrow> r1\<lparr> state := init a (config r1) \<rparr>
         | _ \<Rightarrow> r1)"

definition balancer_runner_get_name :: "BalancerRunner \<Rightarrow> string" where
  "balancer_runner_get_name runner = (case algo runner of Some a \<Rightarrow> name a | None \<Rightarrow> ''none'')"

definition balancer_runner_cleanup :: "BalancerRunner \<Rightarrow> BalancerRunner" where
  "balancer_runner_cleanup runner =
     (case (algo runner, state runner) of
        (Some _, Some _) \<Rightarrow> runner\<lparr> state := None \<rparr>
      | _ \<Rightarrow> runner)"

section \<open>The legacy bitrate file (ceracoder.c)\<close>

text \<open>
  \<open>strtol\<close> is a function of the C library, here after the C standard (7.22.1.4) for
  base 10 in the C locale: it skips white space, reads an optional sign and the longest
  run of decimal digits, and leaves \<open>endptr\<close> at the first character after them; with no
  digit it converts nothing and \<open>endptr\<close> is the start of the string; a value outside
  \<open>long\<close> is replaced by \<open>LONG_MAX\<close> or \<open>LONG_MIN\<close> and sets \<open>errno\<close> to \<open>ERANGE\<close>.
  A \<open>long\<close> has 64 bits here.  The result is the value, \<open>endptr\<close> as the rest of the
  string, and whether \<open>errno\<close> was set.
\<close>

definition isspace_c :: "char \<Rightarrow> bool" where
  "isspace_c c = (c \<in> {CHR '' '', CHR 0x09, CHR 0x0A, CHR 0x0B, CHR 0x0C, CHR 0x0D})"

definition isdigit_c :: "char \<Rightarrow> bool" where
  "isdigit_c c = (48 \<le> (of_char c :: nat) \<and> (of_char c :: nat) \<le> 57)"

fun digits_val :: "int \<Rightarrow> string \<Rightarrow> int" where
  "digits_val acc [] = acc"
| "digits_val acc (c # cs) = digits_val (acc * 10 + (of_char c - 48)) cs"

abbreviation (input) LONG_MAX :: int where "LONG_MAX \<equiv> 2 ^ 63 - 1"
abbreviation (input) LONG_MIN :: int where "LONG_MIN \<equiv> - (2 ^ 63)"

definition strtol_sign :: "string \<Rightarrow> bool \<times> string" where
  "strtol_sign s =
     (case s of
        [] \<Rightarrow> (False, s)
      | c # cs \<Rightarrow> if c = CHR ''-'' then (True, cs)
                  else if c = CHR ''+'' then (False, cs)
                  else (False, s))"

definition strtol :: "string \<Rightarrow> int \<times> string \<times> bool" where
  "strtol str =
     (let (neg, s2) = strtol_sign (dropWhile isspace_c str);
          ds = takeWhile isdigit_c s2;
          v = (if neg then - digits_val 0 ds else digits_val 0 ds)
      in if ds = [] then (0, str, False)
         else if v > LONG_MAX then (LONG_MAX, dropWhile isdigit_c s2, True)
         else if v < LONG_MIN then (LONG_MIN, dropWhile isdigit_c s2, True)
         else (v, dropWhile isdigit_c s2, False))"

text \<open>
  \<open>parse_long\<close>: \<open>None\<close> for the return value \<open>-1\<close>, \<open>Some val\<close> for the return value
  \<open>0\<close> with \<open>*result = val\<close>.  The loop after \<open>strtol\<close> skips blanks, tabs, newlines
  and carriage returns.
\<close>

definition trailing_ws :: "char \<Rightarrow> bool" where
  "trailing_ws c = (c = CHR '' '' \<or> c = CHR 0x09 \<or> c = CHR 0x0A \<or> c = CHR 0x0D)"

definition parse_long :: "string option \<Rightarrow> int \<Rightarrow> int \<Rightarrow> int option" where
  "parse_long str min_val max_val =
     (case str of
        None \<Rightarrow> None
      | Some s \<Rightarrow>
          if s = [] then None
          else (let (val, endptr, erange) = strtol s in
                if erange \<or> endptr = s then None
                else if dropWhile trailing_ws endptr \<noteq> [] then None
                else if val < min_val \<or> val > max_val then None
                else Some val))"

definition parse_bitrate :: "string option \<Rightarrow> int" where
  "parse_bitrate bitrate_string =
     (case parse_long bitrate_string MIN_BITRATE ABS_MAX_BITRATE of
        None \<Rightarrow> -1
      | Some bitrate \<Rightarrow> bitrate)"

section \<open>Runs, example values and specification predicates\<close>

text \<open>
  \<open>ceracoder.c\<close> keeps its runner in a static variable, which C initialises to zero
  before \<open>balancer_runner_init\<close> fills it.
\<close>

definition zero_config :: BalancerConfig where
  "zero_config =
     \<lparr> cfg_min_bitrate = 0, cfg_max_bitrate = 0, cfg_srt_latency = 0, cfg_srt_pkt_size = 0,
       adaptive_incr_step = 0, adaptive_decr_step = 0, adaptive_incr_interval = 0,
       adaptive_decr_interval = 0, aimd_incr_step = 0, aimd_decr_mult = 0,
       aimd_incr_interval = 0, aimd_decr_interval = 0 \<rparr>"

definition zero_runner :: BalancerRunner where
  "zero_runner = \<lparr> algo = None, state = None, config = zero_config \<rparr>"

text \<open>A telemetry sample, fields in the order of \<open>BalancerInput\<close>.\<close>

definition sample :: "int \<Rightarrow> real \<Rightarrow> real \<Rightarrow> nat \<Rightarrow> int \<Rightarrow> int \<Rightarrow> BalancerInput" where
  "sample b r rate ts lt rt =
     \<lparr> buffer_size = b, rtt = r, send_rate_mbps = rate, timestamp = ts,
       pkt_loss_total = lt, pkt_retrans_total = rt \<rparr>"

text \<open>
  The algorithm configuration the runner composes from the default configuration file
  values, with the given bounds in kbps and latency in ms.
\<close>

definition default_config :: "int \<Rightarrow> int \<Rightarrow> int \<Rightarrow> BalancerConfig" where
  "default_config min_kbps max_kbps latency =
     runner_config zero_config
       (config_init_defaults\<lparr> bc_min_bitrate := min_kbps, bc_max_bitrate := max_kbps \<rparr>)
       latency 1316"

text \<open>The adaptive context at start-up for the default tuning and packet size 1316.\<close>

definition start_context :: "int \<Rightarrow> int \<Rightarrow> int \<Rightarrow> BitrateContext" where
  "start_context min_br max_br latency =
     bitrate_context_init min_br max_br latency 1316 30000 100000 500 200"

text \<open>The context after the four filter blocks of \<open>bitrate_update\<close>, before the decision.\<close>

definition filtered :: "BitrateContext \<Rightarrow> int \<Rightarrow> real \<Rightarrow> real \<Rightarrow> int \<Rightarrow> int \<Rightarrow> BitrateContext" where
  "filtered ctx b r rate lt rt =
     track_throughput (track_rtt (track_bs (track_loss ctx lt rt) b) r) rate"

text \<open>Successive \<open>balancer_runner_step\<close> calls on one runner, collecting the outputs.\<close>

fun runner_steps ::
  "BalancerRunner \<Rightarrow> BalancerInput list \<Rightarrow> (BalancerOutput list \<times> BalancerRunner) option" where
  "runner_steps r [] = Some ([], r)"
| "runner_steps r (i # is) =
     (case balancer_runner_step r i of
        None \<Rightarrow> None
      | Some (out, r') \<Rightarrow>
          (case runner_steps r' is of
             None \<Rightarrow> None
           | Some (outs, r'') \<Rightarrow> Some (out # outs, r'')))"

text \<open>
  The states an algorithm passes through: the state before the first call and the state
  after each call.
\<close>

definition adaptive_next :: "BitrateContext \<Rightarrow> BalancerInput \<Rightarrow> BitrateContext" where
  "adaptive_next ctx i =
     snd (snd (bitrate_update ctx (buffer_size i) (rtt i) (send_rate_mbps i) (timestamp i)
                 (pkt_loss_total i) (pkt_retrans_total i)))"

fun adaptive_trace :: "BitrateContext \<Rightarrow> BalancerInput list \<Rightarrow> BitrateContext list" where
  "adaptive_trace ctx [] = [ctx]"
| "adaptive_trace ctx (i # is) = ctx # adaptive_trace (adaptive_next ctx i) is"

fun aimd_trace :: "AimdState \<Rightarrow> BalancerInput list \<Rightarrow> AimdState list" where
  "aimd_trace s [] = [s]"
| "aimd_trace s (i # is) = s # aimd_trace (snd (aimd_update s i)) is"

text \<open>
  A state that belongs to an algorithm and carries the bounds of a configuration: the
  invariant between the runner's \<open>config\<close> and its \<open>state\<close>.
\<close>

definition state_of :: "BalancerAlgorithm \<Rightarrow> BalancerConfig \<Rightarrow> algo_state \<Rightarrow> bool" where
  "state_of a cfg st =
     ((a = balancer_adaptive \<and>
         (\<exists>ctx. st = AdaptiveSt ctx \<and> min_bitrate ctx = cfg_min_bitrate cfg
                  \<and> max_bitrate ctx = cfg_max_bitrate cfg))
    \<or> (a = balancer_aimd \<and>
         (\<exists>s. st = AimdSt s \<and> a_min_bitrate s = cfg_min_bitrate cfg
                \<and> a_max_bitrate s = cfg_max_bitrate cfg))
    \<or> (a = balancer_fixed \<and>
         st = FixedSt \<lparr> fixed_bitrate = round_100k (cfg_max_bitrate cfg) \<rparr>))"

definition decision_ok :: "BalancerConfig \<Rightarrow> BalancerOutput \<Rightarrow> bool" where
  "decision_ok cfg out =
     (100000 dvd new_bitrate out \<and> round_100k (cfg_min_bitrate cfg) \<le> new_bitrate out
        \<and> new_bitrate out \<le> cfg_max_bitrate cfg)"

text \<open>The context that \<open>adaptive_init\<close> builds from a configuration.\<close>

definition adaptive_start :: "BalancerConfig \<Rightarrow> BitrateContext" where
  "adaptive_start cfg =
     bitrate_context_init (cfg_min_bitrate cfg) (cfg_max_bitrate cfg)
       (cfg_srt_latency cfg) (cfg_srt_pkt_size cfg)
       (adaptive_incr_step cfg) (adaptive_decr_step cfg)
       (adaptive_incr_interval cfg) (adaptive_decr_interval cfg)"

text \<open>
  No deadline computed from the samples' timestamps with the interval \<open>d\<close> wraps around
  in \<open>uint64_t\<close>.
\<close>

definition fits :: "BalancerInput list \<Rightarrow> int \<Rightarrow> bool" where
  "fits inputs d = (\<forall>i\<in>set inputs. timestamp i + nat d < 2 ^ 64)"

text \<open>
  The lines of the bitrate file in words.  \<open>number_text s v\<close>: the string \<open>s\<close> is a
  decimal integer with value \<open>v\<close>, an optional sign and at least one digit, optionally
  followed by blanks, tabs, newlines and carriage returns.  \<open>padded_number_text s v\<close>:
  the same after any white space that \<open>strtol\<close> skips.
\<close>

definition number_text :: "string \<Rightarrow> int \<Rightarrow> bool" where
  "number_text s v =
     (\<exists>sg ds tr. s = sg @ ds @ tr
         \<and> (sg = [] \<or> sg = ''+'' \<or> sg = ''-'')
         \<and> ds \<noteq> [] \<and> (\<forall>c\<in>set ds. isdigit_c c)
         \<and> (\<forall>c\<in>set tr. trailing_ws c)
         \<and> v = (if sg = ''-'' then - digits_val 0 ds else digits_val 0 ds))"

definition padded_number_text :: "string \<Rightarrow> int \<Rightarrow> bool" where
  "padded_number_text s v =
     (\<exists>ws rest. s = ws @ rest \<and> (\<forall>c\<in>set ws. isspace_c c) \<and> number_text rest v)"

section \<open>Basic facts\<close>

lemma sdiv_nonneg: "0 \<le> a \<Longrightarrow> 0 < b \<Longrightarrow> a sdiv b = a div (b::int)"
  by (simp add: signed_divide_int_def sgn_if)

lemma round_100k_nonneg: "0 \<le> c \<Longrightarrow> round_100k c = c div 100000 * 100000"
  by (simp add: round_100k_def sdiv_nonneg)

lemma round_100k_dvd: "100000 dvd round_100k c"
  by (simp add: round_100k_def)

lemma round_100k_le: "0 \<le> c \<Longrightarrow> round_100k c \<le> c"
  by (simp add: round_100k_nonneg)

lemma round_100k_mono: "0 \<le> a \<Longrightarrow> a \<le> c \<Longrightarrow> round_100k a \<le> round_100k c"
  by (simp add: round_100k_nonneg zdiv_mono1)

lemma round_100k_range:
  assumes "0 \<le> mn" "mn \<le> c" "c \<le> mx"
  shows "100000 dvd round_100k c \<and> round_100k mn \<le> round_100k c \<and> round_100k c \<le> mx"
  using assms round_100k_dvd [of c] round_100k_mono [of mn c] round_100k_le [of c] by linarith

lemma min_max_bounds: "l \<le> h \<Longrightarrow> l \<le> min_max a l h \<and> min_max a l h \<le> h"
  by (simp add: min_max_def)

lemma min_max_floor: "min_max l l h = l"
  by (simp add: min_max_def)

subsection \<open>The blocks of \<open>bitrate_update\<close>\<close>

text \<open>The filter blocks leave the configuration, the set-point and the deadlines alone.\<close>

lemma filtered_fields:
  "min_bitrate (filtered ctx b r rate lt rt) = min_bitrate ctx"
  "max_bitrate (filtered ctx b r rate lt rt) = max_bitrate ctx"
  "srt_latency (filtered ctx b r rate lt rt) = srt_latency ctx"
  "cur_bitrate (filtered ctx b r rate lt rt) = cur_bitrate ctx"
  "incr_interval (filtered ctx b r rate lt rt) = incr_interval ctx"
  "decr_interval (filtered ctx b r rate lt rt) = decr_interval ctx"
  "decr_fast_interval (filtered ctx b r rate lt rt) = decr_fast_interval ctx"
  "next_bitrate_incr (filtered ctx b r rate lt rt) = next_bitrate_incr ctx"
  "next_bitrate_decr (filtered ctx b r rate lt rt) = next_bitrate_decr ctx"
  by (simp_all add: filtered_def track_throughput_def track_rtt_def track_bs_def track_loss_def Let_def)

lemma filtered_rtt_min:
  "rtt_min (filtered ctx b r rate lt rt) =
     (if trunc_int r \<noteq> RTT_IGNORE_VALUE \<and> r < rtt_min ctx * RTT_MIN_DRIFT
           \<and> rtt_avg_delta ctx * EMA_RTT_DELTA + (r - real_of_int (prev_rtt ctx)) * EMA_RTT_DELTA_NEW < 1.0
      then r else rtt_min ctx * RTT_MIN_DRIFT)"
  by (simp add: filtered_def track_throughput_def track_rtt_def track_bs_def track_loss_def Let_def)

text \<open>The decision ladder changes nothing but the two deadlines.\<close>

lemma decide_fields:
  "min_bitrate (snd (decide ctx b ri ts plc)) = min_bitrate ctx"
  "max_bitrate (snd (decide ctx b ri ts plc)) = max_bitrate ctx"
  "throughput (snd (decide ctx b ri ts plc)) = throughput ctx"
  "rtt_min (snd (decide ctx b ri ts plc)) = rtt_min ctx"
  "incr_interval (snd (decide ctx b ri ts plc)) = incr_interval ctx"
  "decr_interval (snd (decide ctx b ri ts plc)) = decr_interval ctx"
  "decr_fast_interval (snd (decide ctx b ri ts plc)) = decr_fast_interval ctx"
  by (simp_all add: decide_def Let_def)

text \<open>\<open>bitrate_update\<close> as filters, decision, clamp and rounding.\<close>

lemma bitrate_update_unfold:
  "bitrate_update ctx b r rate ts lt rt =
     (let d = decide (filtered ctx b r rate lt rt) b (trunc_int r) ts
                (pkt_loss_congestion (track_loss ctx lt rt));
          c = min_max (fst d) (min_bitrate ctx) (max_bitrate ctx)
      in (round_100k c,
          \<lparr> res_new_bitrate = round_100k c,
            res_throughput = throughput (filtered ctx b r rate lt rt),
            res_rtt = trunc_int r,
            res_rtt_th_min = rtt_th_min_of (filtered ctx b r rate lt rt),
            res_rtt_th_max = rtt_th_max_of (filtered ctx b r rate lt rt),
            res_bs = b,
            res_bs_th1 = bs_th1_of (filtered ctx b r rate lt rt),
            res_bs_th2 = bs_th2_of (filtered ctx b r rate lt rt),
            res_bs_th3 = bs_th3_of (filtered ctx b r rate lt rt) \<rparr>,
          (snd d)\<lparr> cur_bitrate := c \<rparr>))"
proof -
  have f: "track_throughput (track_rtt (track_bs (track_loss ctx lt rt) b) r) rate
             = filtered ctx b r rate lt rt"
    by (simp add: filtered_def)
  show ?thesis
    unfolding bitrate_update_def Let_def split_def f
    by (simp add: decide_fields filtered_fields)
qed

lemma bitrate_update_fst:
  "fst (bitrate_update ctx b r rate ts lt rt) =
     round_100k (cur_bitrate (snd (snd (bitrate_update ctx b r rate ts lt rt))))"
  by (simp add: bitrate_update_unfold Let_def)

lemma bitrate_update_cur:
  "cur_bitrate (snd (snd (bitrate_update ctx b r rate ts lt rt))) =
     min_max (fst (decide (filtered ctx b r rate lt rt) b (trunc_int r) ts
                     (pkt_loss_congestion (track_loss ctx lt rt))))
             (min_bitrate ctx) (max_bitrate ctx)"
  by (simp add: bitrate_update_unfold Let_def)

lemma bitrate_update_th3:
  "res_bs_th3 (fst (snd (bitrate_update ctx b r rate ts lt rt))) = bs_th3_of (filtered ctx b r rate lt rt)"
  by (simp add: bitrate_update_unfold Let_def)

lemma bitrate_update_keeps:
  "min_bitrate (snd (snd (bitrate_update ctx b r rate ts lt rt))) = min_bitrate ctx"
  "max_bitrate (snd (snd (bitrate_update ctx b r rate ts lt rt))) = max_bitrate ctx"
  "incr_interval (snd (snd (bitrate_update ctx b r rate ts lt rt))) = incr_interval ctx"
  "decr_interval (snd (snd (bitrate_update ctx b r rate ts lt rt))) = decr_interval ctx"
  "decr_fast_interval (snd (snd (bitrate_update ctx b r rate ts lt rt))) = decr_fast_interval ctx"
  by (simp_all add: bitrate_update_unfold Let_def decide_fields filtered_fields)

lemma bitrate_update_range:
  assumes "0 \<le> min_bitrate ctx" "min_bitrate ctx \<le> max_bitrate ctx"
  shows "100000 dvd fst (bitrate_update ctx b r rate ts lt rt)
       \<and> round_100k (min_bitrate ctx) \<le> fst (bitrate_update ctx b r rate ts lt rt)
       \<and> fst (bitrate_update ctx b r rate ts lt rt) \<le> max_bitrate ctx"
proof -
  let ?c = "cur_bitrate (snd (snd (bitrate_update ctx b r rate ts lt rt)))"
  have "min_bitrate ctx \<le> ?c" "?c \<le> max_bitrate ctx"
    using min_max_bounds [OF assms(2)] by (simp_all add: bitrate_update_cur)
  then show ?thesis
    unfolding bitrate_update_fst using round_100k_range [OF assms(1)] by blast
qed

text \<open>Evaluation of the blocks on concrete values.\<close>

lemmas block_defs =
  track_loss_def track_bs_def track_rtt_def track_throughput_def decide_def emergency_def
  pkt_loss_congestion_def min_max_def round_100k_def trunc_int_def bs_th3_of_def bs_th2_of_def
  bs_th1_of_def rtt_th_max_of_def rtt_th_min_of_def RTT_TO_BS_def u64_add_def u64_of_int_def
  signed_divide_int_def start_context_def bitrate_context_init_def

subsection \<open>The stages of \<open>aimd_step\<close>\<close>

lemma aimd_update_new_bitrate:
  "new_bitrate (fst (aimd_update s inp)) = round_100k (a_cur_bitrate (snd (aimd_update s inp)))"
  by (simp add: aimd_update_def Let_def)

lemma aimd_update_snd:
  "snd (aimd_update s inp) =
     aimd_clamp (aimd_adjust (aimd_snap (aimd_baseline s (rtt inp)) inp) inp
                   (aimd_congested (aimd_baseline s (rtt inp)) inp))"
  by (simp add: aimd_update_def Let_def)

lemma aimd_stage_fields:
  "a_min_bitrate (aimd_baseline s r) = a_min_bitrate s"
  "a_max_bitrate (aimd_baseline s r) = a_max_bitrate s"
  "a_min_bitrate (aimd_snap s inp) = a_min_bitrate s"
  "a_max_bitrate (aimd_snap s inp) = a_max_bitrate s"
  "a_min_bitrate (aimd_adjust s inp c) = a_min_bitrate s"
  "a_max_bitrate (aimd_adjust s inp c) = a_max_bitrate s"
  "a_min_bitrate (aimd_clamp s) = a_min_bitrate s"
  "a_max_bitrate (aimd_clamp s) = a_max_bitrate s"
  by (simp_all add: aimd_baseline_def aimd_snap_def aimd_adjust_def aimd_clamp_def)

lemma aimd_update_keeps_bounds:
  "a_min_bitrate (snd (aimd_update s inp)) = a_min_bitrate s"
  "a_max_bitrate (snd (aimd_update s inp)) = a_max_bitrate s"
  by (simp_all add: aimd_update_snd aimd_stage_fields)

lemma aimd_clamp_range:
  "a_min_bitrate s \<le> a_max_bitrate s \<Longrightarrow>
     a_min_bitrate s \<le> a_cur_bitrate (aimd_clamp s) \<and> a_cur_bitrate (aimd_clamp s) \<le> a_max_bitrate s"
  by (simp add: aimd_clamp_def)

lemma aimd_update_clamped:
  assumes "a_min_bitrate s \<le> a_max_bitrate s"
  shows "a_min_bitrate s \<le> a_cur_bitrate (snd (aimd_update s inp)) \<and>
         a_cur_bitrate (snd (aimd_update s inp)) \<le> a_max_bitrate s"
  using aimd_clamp_range [of "aimd_adjust (aimd_snap (aimd_baseline s (rtt inp)) inp) inp
                   (aimd_congested (aimd_baseline s (rtt inp)) inp)"] assms
  by (simp add: aimd_update_snd aimd_stage_fields)

lemma aimd_update_range:
  assumes "0 \<le> a_min_bitrate s" "a_min_bitrate s \<le> a_max_bitrate s"
  shows "100000 dvd new_bitrate (fst (aimd_update s inp))
       \<and> round_100k (a_min_bitrate s) \<le> new_bitrate (fst (aimd_update s inp))
       \<and> new_bitrate (fst (aimd_update s inp)) \<le> a_max_bitrate s"
  unfolding aimd_update_new_bitrate
  using round_100k_range [OF assms(1)] aimd_update_clamped [OF assms(2)] by blast

lemmas double_defs =
  double_mul_def double_add_def double_sub_def double_round_def double_ulp_def double_exponent_def
  round_even_def compute_bitlen power_int_def power_one_over Let_def

lemmas aimd_defs =
  aimd_update_def aimd_baseline_def aimd_rtt_threshold_def aimd_emergency_def aimd_congested_def
  aimd_snap_def aimd_adjust_def aimd_clamp_def aimd_init_state_def round_100k_def trunc_int_def
  u64_add_def u64_of_int_def signed_divide_int_def sample_def double_defs

subsection \<open>The algorithms behind the interface\<close>

lemma adaptive_step_AdaptiveSt:
  "\<exists>out. step balancer_adaptive (AdaptiveSt ctx) inp = Some (out, AdaptiveSt (adaptive_next ctx inp))
        \<and> new_bitrate out = fst (bitrate_update ctx (buffer_size inp) (rtt inp)
                (send_rate_mbps inp) (timestamp inp) (pkt_loss_total inp) (pkt_retrans_total inp))"
  by (simp add: balancer_adaptive_def adaptive_step_def adaptive_next_def split_def Let_def)

lemma aimd_step_AimdSt:
  "step balancer_aimd (AimdSt s) inp = Some (fst (aimd_update s inp), AimdSt (snd (aimd_update s inp)))"
  by (simp add: balancer_aimd_def aimd_step_def split_def Let_def)

lemma fixed_step_FixedSt:
  "\<exists>out. step balancer_fixed (FixedSt s) inp = Some (out, FixedSt s) \<and> new_bitrate out = fixed_bitrate s"
  by (simp add: balancer_fixed_def fixed_step_def)

lemma init_state_of:
  assumes "a \<in> {balancer_adaptive, balancer_aimd, balancer_fixed}"
  shows "\<exists>st. init a cfg = Some st \<and> state_of a cfg st"
proof -
  have i1: "init balancer_adaptive cfg = adaptive_init cfg" by (simp add: balancer_adaptive_def)
  have i2: "init balancer_aimd cfg = aimd_init cfg" by (simp add: balancer_aimd_def)
  have i3: "init balancer_fixed cfg = fixed_init cfg" by (simp add: balancer_fixed_def)
  from assms consider "a = balancer_adaptive" | "a = balancer_aimd" | "a = balancer_fixed" by blast
  then show ?thesis
  proof cases
    case 1
    then show ?thesis
      by (simp add: state_of_def i1 adaptive_init_def bitrate_context_init_def)
  next
    case 2
    then show ?thesis
      by (simp add: state_of_def i2 aimd_init_def aimd_init_state_def)
  next
    case 3
    then show ?thesis
      by (simp add: state_of_def i3 fixed_init_def)
  qed
qed

lemma step_state_of:
  assumes ok: "state_of a cfg st"
      and b: "0 \<le> cfg_min_bitrate cfg" "cfg_min_bitrate cfg \<le> cfg_max_bitrate cfg"
  shows "\<exists>out st'. step a st inp = Some (out, st') \<and> state_of a cfg st' \<and> decision_ok cfg out"
proof -
  consider
      (adaptive) ctx where "a = balancer_adaptive" "st = AdaptiveSt ctx"
        "min_bitrate ctx = cfg_min_bitrate cfg" "max_bitrate ctx = cfg_max_bitrate cfg"
    | (aimd) s where "a = balancer_aimd" "st = AimdSt s"
        "a_min_bitrate s = cfg_min_bitrate cfg" "a_max_bitrate s = cfg_max_bitrate cfg"
    | (fixed) "a = balancer_fixed" "st = FixedSt \<lparr> fixed_bitrate = round_100k (cfg_max_bitrate cfg) \<rparr>"
    using ok unfolding state_of_def by blast
  then show ?thesis
  proof cases
    case adaptive
    let ?u = "bitrate_update ctx (buffer_size inp) (rtt inp) (send_rate_mbps inp)
                (timestamp inp) (pkt_loss_total inp) (pkt_retrans_total inp)"
    obtain out where o: "step a st inp = Some (out, AdaptiveSt (adaptive_next ctx inp))"
        "new_bitrate out = fst ?u"
      using adaptive_step_AdaptiveSt [of ctx inp] adaptive(1,2) by auto
    have r: "decision_ok cfg out"
      using bitrate_update_range [of ctx] b adaptive(3,4) o(2) by (simp add: decision_ok_def)
    have k: "state_of a cfg (AdaptiveSt (adaptive_next ctx inp))"
      using adaptive(1,3,4) by (simp add: state_of_def adaptive_next_def bitrate_update_keeps)
    show ?thesis using o(1) r k by blast
  next
    case aimd
    have o: "step a st inp = Some (fst (aimd_update s inp), AimdSt (snd (aimd_update s inp)))"
      using aimd(1,2) by (simp add: aimd_step_AimdSt)
    have r: "decision_ok cfg (fst (aimd_update s inp))"
      using aimd_update_range [of s inp] b aimd(3,4) by (simp add: decision_ok_def)
    have k: "state_of a cfg (AimdSt (snd (aimd_update s inp)))"
      using aimd(1,3,4) by (simp add: state_of_def aimd_update_keeps_bounds)
    show ?thesis using o r k by blast
  next
    case fixed
    obtain out where o: "step a st inp = Some (out, st)"
        "new_bitrate out = round_100k (cfg_max_bitrate cfg)"
      using fixed_step_FixedSt [of "\<lparr> fixed_bitrate = round_100k (cfg_max_bitrate cfg) \<rparr>" inp] fixed
      by auto
    have "decision_ok cfg out"
      using round_100k_range [of "cfg_min_bitrate cfg" "cfg_max_bitrate cfg" "cfg_max_bitrate cfg"] b o(2)
      by (simp add: decision_ok_def)
    then show ?thesis using o(1) ok by blast
  qed
qed

lemma runner_steps_ok:
  assumes b: "0 \<le> cfg_min_bitrate cfg" "cfg_min_bitrate cfg \<le> cfg_max_bitrate cfg"
  shows "algo r = Some a \<Longrightarrow> state r = Some st \<Longrightarrow> state_of a cfg st \<Longrightarrow>
     \<exists>outs r'. runner_steps r inputs = Some (outs, r') \<and> length outs = length inputs
        \<and> (\<forall>out\<in>set outs. decision_ok cfg out)"
proof (induction inputs arbitrary: r st)
  case Nil
  then show ?case by simp
next
  case (Cons i inputs)
  obtain out st' where s: "step a st i = Some (out, st')" "state_of a cfg st'" "decision_ok cfg out"
    using step_state_of [OF Cons.prems(3) b] by blast
  let ?r' = "r\<lparr> state := Some st' \<rparr>"
  have rs: "balancer_runner_step r i = Some (out, ?r')"
    using Cons.prems(1,2) s(1) by (simp add: balancer_runner_step_def)
  obtain outs r'' where t: "runner_steps ?r' inputs = Some (outs, r'')" "length outs = length inputs"
      "\<forall>out\<in>set outs. decision_ok cfg out"
    using Cons.IH [of ?r' st'] Cons.prems(1) s(2) by auto
  show ?case using rs t s(3) by simp
qed

subsection \<open>The registry and the runner on the default configuration\<close>

lemma find_adaptive:
  "balancer_find (Some ''adaptive'') = Some balancer_adaptive"
  by (simp add: balancer_find_def balancer_find_in_def algorithms_def balancer_adaptive_def)

lemma get_default_adaptive: "balancer_get_default = Some balancer_adaptive"
  by (simp add: balancer_get_default_def algorithms_def)

lemma default_config_eval:
  "default_config mn mx latency =
     \<lparr> cfg_min_bitrate = mn * 1000, cfg_max_bitrate = mx * 1000, cfg_srt_latency = latency,
       cfg_srt_pkt_size = 1316, adaptive_incr_step = 30000, adaptive_decr_step = 100000,
       adaptive_incr_interval = 500, adaptive_decr_interval = 200, aimd_incr_step = 50000,
       aimd_decr_mult = 0.75, aimd_incr_interval = 500, aimd_decr_interval = 200 \<rparr>"
  by (simp add: default_config_def runner_config_def zero_config_def config_init_defaults_def
        config_bitrate_bps_def)

lemma adaptive_init_default:
  "adaptive_init (default_config mn mx latency) =
     Some (AdaptiveSt (start_context (mn * 1000) (mx * 1000) latency))"
  by (simp add: default_config_eval adaptive_init_def start_context_def)

lemma runner_init_default:
  "balancer_runner_init zero_runner
       (config_init_defaults\<lparr> bc_min_bitrate := mn, bc_max_bitrate := mx \<rparr>) None latency 1316 =
     (0, \<lparr> algo = Some balancer_adaptive,
           state = Some (AdaptiveSt (start_context (mn * 1000) (mx * 1000) latency)),
           config = default_config mn mx latency \<rparr>)"
proof -
  have c: "runner_config zero_config
             (config_init_defaults\<lparr> bc_min_bitrate := mn, bc_max_bitrate := mx \<rparr>) latency 1316
           = default_config mn mx latency"
    by (simp add: default_config_def)
  have n: "balancer (config_init_defaults\<lparr> bc_min_bitrate := mn, bc_max_bitrate := mx \<rparr>) = ''adaptive''"
    by (simp add: config_init_defaults_def)
  have i: "init balancer_adaptive (default_config mn mx latency)
           = Some (AdaptiveSt (start_context (mn * 1000) (mx * 1000) latency))"
    using adaptive_init_default by (simp add: balancer_adaptive_def)
  show ?thesis
    by (simp add: balancer_runner_init_def Let_def zero_runner_def n find_adaptive c i)
qed

lemma bitrate_update_emergency:
  assumes "cur_bitrate ctx > min_bitrate ctx"
      and "trunc_int r \<ge> srt_latency ctx sdiv 3
           \<or> b > res_bs_th3 (fst (snd (bitrate_update ctx b r rate ts lt rt)))"
  shows "fst (bitrate_update ctx b r rate ts lt rt) = round_100k (min_bitrate ctx)
       \<and> cur_bitrate (snd (snd (bitrate_update ctx b r rate ts lt rt))) = min_bitrate ctx"
proof -
  have e: "emergency (filtered ctx b r rate lt rt) b (trunc_int r)"
    using assms(2) by (simp add: emergency_def filtered_fields bitrate_update_th3)
  have d: "fst (decide (filtered ctx b r rate lt rt) b (trunc_int r) ts
                  (pkt_loss_congestion (track_loss ctx lt rt))) = min_bitrate ctx"
    using assms(1) e by (simp add: decide_def Let_def filtered_fields)
  have c: "cur_bitrate (snd (snd (bitrate_update ctx b r rate ts lt rt))) = min_bitrate ctx"
    by (simp add: bitrate_update_cur d min_max_floor)
  show ?thesis
    using c by (simp add: bitrate_update_fst)
qed

lemma runner_init_ignores_loss_threshold:
  "balancer_runner_init r (cfg\<lparr> bc_adaptive := (bc_adaptive cfg)\<lparr> loss_threshold := x \<rparr> \<rparr>) ov l p
     = balancer_runner_init r cfg ov l p"
proof -
  have 1: "runner_config c (cfg\<lparr> bc_adaptive := (bc_adaptive cfg)\<lparr> loss_threshold := x \<rparr> \<rparr>) l p
             = runner_config c cfg l p" for c
    by (simp add: runner_config_def)
  have 2: "balancer (cfg\<lparr> bc_adaptive := (bc_adaptive cfg)\<lparr> loss_threshold := x \<rparr> \<rparr>) = balancer cfg"
    by simp
  show ?thesis unfolding balancer_runner_init_def 1 2 ..
qed

lemma runner_step_adaptive:
  "map_option (new_bitrate \<circ> fst)
     (balancer_runner_step \<lparr> algo = Some balancer_adaptive, state = Some (AdaptiveSt ctx), config = c \<rparr>
        (sample b r rate ts lt rt))
   = Some (fst (bitrate_update ctx b r rate ts lt rt))"
  by (simp add: balancer_runner_step_def balancer_adaptive_def adaptive_step_def sample_def
        split_def Let_def)

section \<open>The claims\<close>

subsection \<open>C1: the registry\<close>

text \<open>
  Claim C1 says that the registry holds the three algorithms: \<open>balancer_find\<close> finds
  \<open>"adaptive"\<close>, \<open>"fixed"\<close> and \<open>"aimd"\<close>, \<open>balancer_list_all\<close> enumerates all three and
  \<open>balancer_get_default\<close> is the adaptive algorithm.  The table of
  \<open>balancer_registry.c\<close> has the single entry \<open>&balancer_adaptive\<close>: the default and the
  lookup of \<open>"adaptive"\<close> are as claimed, but \<open>"fixed"\<close> and \<open>"aimd"\<close> are not found and are
  not listed, although both algorithms are defined and the tests select them by name:
  the override \<open>"aimd"\<close> makes \<open>balancer_runner_init\<close> fail, and the configured name
  \<open>"fixed"\<close> silently selects the adaptive algorithm.
\<close>

theorem registry_has_only_adaptive:
  "balancer_find (Some ''fixed'') = None
   \<and> balancer_find (Some ''aimd'') = None
   \<and> map name balancer_list_all = [''adaptive'']
   \<and> balancer_find (Some ''adaptive'') = Some balancer_adaptive
   \<and> balancer_get_default = Some balancer_adaptive
   \<and> fst (balancer_runner_init zero_runner config_init_defaults (Some ''aimd'') 2000 1316) = - 1
   \<and> balancer_runner_get_name
        (snd (balancer_runner_init zero_runner (config_init_defaults\<lparr> balancer := ''fixed'' \<rparr>)
                None 2000 1316))
       = ''adaptive''"
proof -
  have f: "balancer_find (Some ''fixed'') = None" "balancer_find (Some ''aimd'') = None"
    by (simp_all add: balancer_find_def balancer_find_in_def algorithms_def balancer_adaptive_def)
  have l: "map name balancer_list_all = [''adaptive'']"
    by (simp add: balancer_list_all_def algorithms_def balancer_adaptive_def)
  have i: "fst (balancer_runner_init zero_runner config_init_defaults (Some ''aimd'') 2000 1316) = - 1"
    by (simp add: balancer_runner_init_def f)
  have n: "balancer_runner_get_name
        (snd (balancer_runner_init zero_runner (config_init_defaults\<lparr> balancer := ''fixed'' \<rparr>)
                None 2000 1316))
       = ''adaptive''"
    by (simp add: balancer_runner_init_def f get_default_adaptive Let_def balancer_runner_get_name_def
          balancer_adaptive_def adaptive_init_def)
  show ?thesis
    using f l i n find_adaptive get_default_adaptive by simp
qed

subsection \<open>C10: lookup of a NULL name\<close>

text \<open>
  Claim C10: \<open>balancer_find\<close> returns NULL for a NULL name, whatever the table holds; the
  lookup is a total function of its argument.
\<close>

theorem balancer_find_null:
  "balancer_find_in table None = None \<and> balancer_find None = None"
  by (simp add: balancer_find_def balancer_find_in_def)

subsection \<open>C2: every decision is rounded and bounded\<close>

text \<open>
  Claim C2 says that every decision is a multiple of 100 000 inside
  \<open>[min_bitrate, max_bitrate]\<close>.  The code clamps first and rounds down afterwards, so
  with a minimum that is not a multiple of 100 000 the decision can lie below it: the
  default adaptive runner with bounds 350 and 6000 kbps answers an emergency sample
  with 300 000.
\<close>

theorem decision_below_min_counterexample:
  "cfg_min_bitrate (default_config 350 6000 2000) = 350000
   \<and> cfg_max_bitrate (default_config 350 6000 2000) = 6000000
   \<and> map_option (map new_bitrate \<circ> fst)
       (runner_steps \<lparr> algo = Some balancer_adaptive,
                       state = init balancer_adaptive (default_config 350 6000 2000),
                       config = default_config 350 6000 2000 \<rparr>
          [sample 50 700 2 1000 0 0])
     = Some [300000]"
proof -
  have i: "init balancer_adaptive (default_config 350 6000 2000)
             = Some (AdaptiveSt (start_context 350000 6000000 2000))"
    using adaptive_init_default [of 350 6000 2000] by (simp add: balancer_adaptive_def)
  have u: "fst (bitrate_update (start_context 350000 6000000 2000) 50 700 2 1000 0 0) = 300000"
    using bitrate_update_emergency [of "start_context 350000 6000000 2000" 700 50 2 1000 0 0]
    by (simp add: start_context_def bitrate_context_init_def trunc_int_def round_100k_def
          signed_divide_int_def)
  have s: "balancer_runner_step \<lparr> algo = Some balancer_adaptive,
                       state = Some (AdaptiveSt (start_context 350000 6000000 2000)),
                       config = default_config 350 6000 2000 \<rparr> (sample 50 700 2 1000 0 0) \<noteq> None"
    by (simp add: balancer_runner_step_def balancer_adaptive_def adaptive_step_def split_def Let_def)
  have m: "cfg_min_bitrate (default_config 350 6000 2000) = 350000"
          "cfg_max_bitrate (default_config 350 6000 2000) = 6000000"
    by (simp_all add: default_config_eval)
  show ?thesis
    using runner_step_adaptive [of "start_context 350000 6000000 2000" "default_config 350 6000 2000"
            50 700 2 1000 0 0] s
    by (auto simp: i u m split: option.splits)
qed

text \<open>
  Claim C2 as amended: for each of the three algorithms, every configuration with
  \<open>0 \<le> min_bitrate \<le> max_bitrate\<close> and every sequence of samples, every step returns,
  and each decision is a multiple of 100 000 between \<open>min_bitrate\<close> rounded down to a
  multiple of 100 000 and \<open>max_bitrate\<close>.  (When \<open>min_bitrate\<close> is itself a multiple of
  100 000 this is the interval of the claim.)
\<close>

theorem decisions_rounded_and_bounded:
  assumes "a \<in> {balancer_adaptive, balancer_aimd, balancer_fixed}"
      and "0 \<le> cfg_min_bitrate cfg" and "cfg_min_bitrate cfg \<le> cfg_max_bitrate cfg"
  shows "\<exists>outs r'.
           runner_steps \<lparr> algo = Some a, state = init a cfg, config = cfg \<rparr> inputs = Some (outs, r')
         \<and> length outs = length inputs
         \<and> (\<forall>out\<in>set outs. 100000 dvd new_bitrate out
               \<and> round_100k (cfg_min_bitrate cfg) \<le> new_bitrate out
               \<and> new_bitrate out \<le> cfg_max_bitrate cfg)"
proof -
  obtain st where st: "init a cfg = Some st" "state_of a cfg st"
    using init_state_of [OF assms(1)] by blast
  show ?thesis
    using runner_steps_ok [OF assms(2,3), of "\<lparr> algo = Some a, state = init a cfg, config = cfg \<rparr>"
            a st inputs] st
    by (simp add: decision_ok_def)
qed

theorem decisions_rounded_and_bounded_witness:
  "\<exists>outs r'.
      runner_steps \<lparr> algo = Some balancer_aimd,
                     state = init balancer_aimd (default_config 350 6000 2000),
                     config = default_config 350 6000 2000 \<rparr>
        [sample 10 30 5 1000 0 0, sample 200 500 5 1250 0 0] = Some (outs, r')
    \<and> length outs = 2
    \<and> (\<forall>out\<in>set outs. 100000 dvd new_bitrate out \<and> 300000 \<le> new_bitrate out
          \<and> new_bitrate out \<le> 6000000)"
proof -
  have m: "cfg_min_bitrate (default_config 350 6000 2000) = 350000"
          "cfg_max_bitrate (default_config 350 6000 2000) = 6000000"
    by (simp_all add: default_config_eval)
  have r: "round_100k 350000 = 300000"
    by (simp add: round_100k_def signed_divide_int_def)
  show ?thesis
    using decisions_rounded_and_bounded [of balancer_aimd "default_config 350 6000 2000"
            "[sample 10 30 5 1000 0 0, sample 200 500 5 1250 0 0]"]
    by (simp add: m r numeral_2_eq_2)
qed

subsection \<open>C3: \<open>balancer_runner_update_bounds\<close> with inverted bounds\<close>

text \<open>
  Claim C3 says that \<open>balancer_runner_update_bounds\<close> with \<open>min_bitrate > max_bitrate\<close>
  is rejected and leaves the stored configuration and the algorithm state unchanged.
  The function has no check and no way to report one: on the runner of the default
  configuration the bounds 5 000 000 and 1 000 000 are stored as given and the state is
  built anew from them.
\<close>

theorem update_bounds_inverted_counterexample:
  "config (balancer_runner_update_bounds
             (snd (balancer_runner_init zero_runner
                     (config_init_defaults\<lparr> bc_min_bitrate := 500, bc_max_bitrate := 6000 \<rparr>)
                     None 2000 1316))
             5000000 1000000)
     = (default_config 500 6000 2000)\<lparr> cfg_min_bitrate := 5000000, cfg_max_bitrate := 1000000 \<rparr>
   \<and> state (balancer_runner_update_bounds
             (snd (balancer_runner_init zero_runner
                     (config_init_defaults\<lparr> bc_min_bitrate := 500, bc_max_bitrate := 6000 \<rparr>)
                     None 2000 1316))
             5000000 1000000)
     = Some (AdaptiveSt (start_context 5000000 1000000 2000))
   \<and> config (snd (balancer_runner_init zero_runner
                     (config_init_defaults\<lparr> bc_min_bitrate := 500, bc_max_bitrate := 6000 \<rparr>)
                     None 2000 1316))
     = default_config 500 6000 2000
   \<and> state (snd (balancer_runner_init zero_runner
                     (config_init_defaults\<lparr> bc_min_bitrate := 500, bc_max_bitrate := 6000 \<rparr>)
                     None 2000 1316))
     = Some (AdaptiveSt (start_context 500000 6000000 2000))
   \<and> default_config 500 6000 2000
     \<noteq> (default_config 500 6000 2000)\<lparr> cfg_min_bitrate := 5000000, cfg_max_bitrate := 1000000 \<rparr>
   \<and> start_context 500000 6000000 2000 \<noteq> start_context 5000000 1000000 2000"
  by (simp add: runner_init_default balancer_runner_update_bounds_def Let_def
        balancer_adaptive_def adaptive_init_def default_config_eval start_context_def
        bitrate_context_init_def)

text \<open>
  Claim C3 as amended: for every runner and every pair of bounds, inverted or not,
  \<open>balancer_runner_update_bounds\<close> stores both bounds in the runner's configuration,
  keeps the selected algorithm, and, when an algorithm and a state are present, replaces
  the state by the algorithm's \<open>init\<close> on the new configuration; nothing is rejected.
\<close>

theorem update_bounds_stores_any_bounds:
  "config (balancer_runner_update_bounds r mn mx)
     = (config r)\<lparr> cfg_min_bitrate := mn, cfg_max_bitrate := mx \<rparr>
   \<and> algo (balancer_runner_update_bounds r mn mx) = algo r
   \<and> state (balancer_runner_update_bounds r mn mx)
     = (case (algo r, state r) of
          (Some a, Some _) \<Rightarrow> init a ((config r)\<lparr> cfg_min_bitrate := mn, cfg_max_bitrate := mx \<rparr>)
        | _ \<Rightarrow> state r)"
  by (simp add: balancer_runner_update_bounds_def Let_def split: option.splits)

subsection \<open>C6: the loss threshold of the configuration file\<close>

text \<open>
  Claim C6 says that the congestion-by-loss threshold of the adaptive algorithm is the
  \<open>loss_threshold\<close> of the \<open>[adaptive]\<close> section and that the runner copies it into the
  algorithm's configuration.  \<open>config.c\<close> parses and stores the key, but
  \<open>balancer_runner_init\<close> never reads it and \<open>bitrate_update\<close> compares with the
  constant \<open>LOSS_RATE_THRESHOLD\<close>: the runner is the same for every value of the key,
  and with \<open>loss_threshold = 2\<close> a first tick that reports 10 lost packets (smoothed
  loss rate 1) is treated as congested and cuts 6 000 000 to 5 300 000, where the same
  tick without loss keeps 6 000 000.
\<close>

theorem loss_threshold_has_no_effect:
  "balancer_runner_init r (cfg\<lparr> bc_adaptive := (bc_adaptive cfg)\<lparr> loss_threshold := x \<rparr> \<rparr>) ov l p
     = balancer_runner_init r cfg ov l p
   \<and> map_option (new_bitrate \<circ> fst)
       (balancer_runner_step
          (snd (balancer_runner_init zero_runner
                  ((config_init_defaults\<lparr> bc_min_bitrate := 500, bc_max_bitrate := 6000 \<rparr>)
                     \<lparr> bc_adaptive := (bc_adaptive (config_init_defaults
                                         \<lparr> bc_min_bitrate := 500, bc_max_bitrate := 6000 \<rparr>))
                                    \<lparr> loss_threshold := 2 \<rparr> \<rparr>)
                  None 2000 1316))
          (sample 0 30 5 1000 10 0))
     = Some 5300000
   \<and> loss_rate (track_loss (start_context 500000 6000000 2000) 10 0) = 1
   \<and> map_option (new_bitrate \<circ> fst)
       (balancer_runner_step
          (snd (balancer_runner_init zero_runner
                  ((config_init_defaults\<lparr> bc_min_bitrate := 500, bc_max_bitrate := 6000 \<rparr>)
                     \<lparr> bc_adaptive := (bc_adaptive (config_init_defaults
                                         \<lparr> bc_min_bitrate := 500, bc_max_bitrate := 6000 \<rparr>))
                                    \<lparr> loss_threshold := 2 \<rparr> \<rparr>)
                  None 2000 1316))
          (sample 0 30 5 1000 0 0))
     = Some 6000000"
proof -
  have u1: "fst (bitrate_update (start_context 500000 6000000 2000) 0 30 5 1000 10 0) = 5300000"
    apply (simp only: bitrate_update_def Let_def)
    apply (simp add: block_defs)
    done
  have u2: "fst (bitrate_update (start_context 500000 6000000 2000) 0 30 5 1000 0 0) = 6000000"
    apply (simp only: bitrate_update_def Let_def)
    apply (simp add: block_defs)
    done
  have l: "loss_rate (track_loss (start_context 500000 6000000 2000) 10 0) = 1"
    by (simp add: block_defs)
  show ?thesis
    unfolding runner_init_ignores_loss_threshold runner_init_default snd_conv runner_step_adaptive
    using u1 u2 l by simp
qed

subsection \<open>C8: the ignored RTT value is compared with the truncated RTT\<close>

text \<open>
  Claim C8: in the minimum-RTT update the sentinel \<open>RTT_IGNORE_VALUE = 100\<close> is compared
  with the truncated integer RTT.  For every sample whose RTT truncates to 100 the
  tracked minimum is not lowered to the RTT on that tick; only the upward drift by
  \<open>RTT_MIN_DRIFT\<close> is applied, also when the RTT is below the minimum and the average
  RTT delta is below 1.
\<close>

theorem rtt_ignore_uses_truncated_rtt:
  assumes "trunc_int r = RTT_IGNORE_VALUE"
  shows "rtt_min (snd (snd (bitrate_update ctx b r rate ts lt rt))) = rtt_min ctx * RTT_MIN_DRIFT"
  using assms
  by (simp add: bitrate_update_unfold Let_def decide_fields filtered_rtt_min)

text \<open>
  The witness is a first tick with RTT 100.5 ms: it truncates to 100, lies below the
  drifted minimum 200.2 and the average delta is negative, and the minimum stays 200.2.
  The same tick with RTT 101 lowers the minimum to 101.
\<close>

theorem rtt_ignore_uses_truncated_rtt_witness:
  "trunc_int 100.5 = 100
   \<and> (100.5 :: real) < rtt_min (start_context 500000 6000000 2000) * RTT_MIN_DRIFT
   \<and> rtt_avg_delta (filtered (start_context 500000 6000000 2000) 10 100.5 5 0 0) < 1
   \<and> rtt_min (snd (snd (bitrate_update (start_context 500000 6000000 2000) 10 100.5 5 1000 0 0)))
       = 200.2
   \<and> rtt_min (snd (snd (bitrate_update (start_context 500000 6000000 2000) 10 101 5 1000 0 0)))
       = 101"
proof -
  have t: "trunc_int 100.5 = 100"
    by (simp add: trunc_int_def)
  have m: "rtt_min (start_context 500000 6000000 2000) * RTT_MIN_DRIFT = 200.2"
    by (simp add: start_context_def bitrate_context_init_def)
  have d: "rtt_avg_delta (filtered (start_context 500000 6000000 2000) 10 100.5 5 0 0) < 1"
    by (simp add: filtered_def block_defs)
  have o: "rtt_min (snd (snd (bitrate_update (start_context 500000 6000000 2000) 10 101 5 1000 0 0)))
       = 101"
    by (simp add: bitrate_update_unfold Let_def decide_fields filtered_rtt_min trunc_int_def
          start_context_def bitrate_context_init_def)
  show ?thesis
    using rtt_ignore_uses_truncated_rtt [of "100.5" "start_context 500000 6000000 2000" 10 5 1000 0 0]
          t m d o
    by simp
qed

subsection \<open>C4: the emergency path of the adaptive algorithm\<close>




subsection \<open>C7: the rate-limit deadlines\<close>

lemma u64_add_plain: "0 \<le> d \<Longrightarrow> t + nat d < 2 ^ 64 \<Longrightarrow> u64_add t d = t + nat d"
proof -
  assume d: "0 \<le> d" and f: "t + nat d < 2 ^ 64"
  have "nat d < 2 ^ 64" using f by linarith
  then have "d < 2 ^ 64" using d by (simp add: nat_less_iff)
  then have "d mod 2 ^ 64 = d" using d by simp
  then show ?thesis using f by (simp add: u64_add_def u64_of_int_def)
qed

text \<open>The growth branch is gated by its own deadline, so \<open>next_bitrate_incr\<close> only moves up.\<close>

lemma decide_incr_mono:
  assumes "0 \<le> incr_interval c" "ts + nat (incr_interval c) < 2 ^ 64"
  shows "next_bitrate_incr c \<le> next_bitrate_incr (snd (decide c b ri ts plc))"
  using assms by (simp add: decide_def Let_def u64_add_plain)

text \<open>
  The two timed decreases are gated by \<open>next_bitrate_decr\<close>, the emergency branch is not:
  it is the previous timestamp that bounds the deadline it overwrites.
\<close>

lemma decide_decr_mono:
  assumes i: "0 \<le> decr_fast_interval c" "decr_fast_interval c \<le> decr_interval c"
      and f: "ts + nat (decr_interval c) < 2 ^ 64"
      and inv: "next_bitrate_decr c \<le> t0 + nat (decr_interval c)" and t: "t0 \<le> ts"
  shows "next_bitrate_decr c \<le> next_bitrate_decr (snd (decide c b ri ts plc))
       \<and> next_bitrate_decr (snd (decide c b ri ts plc)) \<le> ts + nat (decr_interval c)"
proof -
  have d: "0 \<le> decr_interval c" using i by linarith
  have ff: "ts + nat (decr_fast_interval c) < 2 ^ 64" using i f by linarith
  have n: "nat (decr_fast_interval c) \<le> nat (decr_interval c)" using i by linarith
  show ?thesis
    using inv t n
    by (simp add: decide_def Let_def u64_add_plain [OF d f] u64_add_plain [OF i(1) ff])
qed

lemma adaptive_next_deadlines:
  "next_bitrate_incr (adaptive_next ctx i) =
     next_bitrate_incr (snd (decide (filtered ctx (buffer_size i) (rtt i) (send_rate_mbps i)
                                        (pkt_loss_total i) (pkt_retrans_total i))
                               (buffer_size i) (trunc_int (rtt i)) (timestamp i)
                               (pkt_loss_congestion (track_loss ctx (pkt_loss_total i) (pkt_retrans_total i)))))"
  "next_bitrate_decr (adaptive_next ctx i) =
     next_bitrate_decr (snd (decide (filtered ctx (buffer_size i) (rtt i) (send_rate_mbps i)
                                        (pkt_loss_total i) (pkt_retrans_total i))
                               (buffer_size i) (trunc_int (rtt i)) (timestamp i)
                               (pkt_loss_congestion (track_loss ctx (pkt_loss_total i) (pkt_retrans_total i)))))"
  by (simp_all add: adaptive_next_def bitrate_update_unfold Let_def)

lemma adaptive_next_intervals:
  "incr_interval (adaptive_next ctx i) = incr_interval ctx"
  "decr_interval (adaptive_next ctx i) = decr_interval ctx"
  "decr_fast_interval (adaptive_next ctx i) = decr_fast_interval ctx"
  by (simp_all add: adaptive_next_def bitrate_update_keeps)

lemma adaptive_next_incr_mono:
  assumes "0 \<le> incr_interval ctx" "timestamp i + nat (incr_interval ctx) < 2 ^ 64"
  shows "next_bitrate_incr ctx \<le> next_bitrate_incr (adaptive_next ctx i)"
  using decide_incr_mono [of "filtered ctx (buffer_size i) (rtt i) (send_rate_mbps i)
                                 (pkt_loss_total i) (pkt_retrans_total i)" "timestamp i"] assms
  by (simp add: adaptive_next_deadlines filtered_fields)

lemma adaptive_next_decr_mono:
  assumes "0 \<le> decr_fast_interval ctx" "decr_fast_interval ctx \<le> decr_interval ctx"
      and "timestamp i + nat (decr_interval ctx) < 2 ^ 64"
      and "next_bitrate_decr ctx \<le> t0 + nat (decr_interval ctx)" and "t0 \<le> timestamp i"
  shows "next_bitrate_decr ctx \<le> next_bitrate_decr (adaptive_next ctx i)
       \<and> next_bitrate_decr (adaptive_next ctx i) \<le> timestamp i + nat (decr_interval ctx)"
  using decide_decr_mono [of "filtered ctx (buffer_size i) (rtt i) (send_rate_mbps i)
                                 (pkt_loss_total i) (pkt_retrans_total i)" "timestamp i" t0] assms
  by (simp add: adaptive_next_deadlines filtered_fields)

lemma adaptive_trace_incr:
  "0 \<le> incr_interval ctx \<Longrightarrow> fits inputs (incr_interval ctx) \<Longrightarrow>
     (\<forall>c\<in>set (adaptive_trace ctx inputs). next_bitrate_incr ctx \<le> next_bitrate_incr c)
     \<and> sorted (map next_bitrate_incr (adaptive_trace ctx inputs))"
proof (induction inputs arbitrary: ctx)
  case Nil
  then show ?case by simp
next
  case (Cons i inputs)
  have s: "next_bitrate_incr ctx \<le> next_bitrate_incr (adaptive_next ctx i)"
    using adaptive_next_incr_mono [of ctx i] Cons.prems by (simp add: fits_def)
  have "(\<forall>c\<in>set (adaptive_trace (adaptive_next ctx i) inputs).
            next_bitrate_incr (adaptive_next ctx i) \<le> next_bitrate_incr c)
        \<and> sorted (map next_bitrate_incr (adaptive_trace (adaptive_next ctx i) inputs))"
    using Cons.IH [of "adaptive_next ctx i"] Cons.prems
    by (simp add: adaptive_next_intervals fits_def)
  then show ?case using s by fastforce
qed

lemma adaptive_trace_decr:
  "0 \<le> decr_fast_interval ctx \<Longrightarrow> decr_fast_interval ctx \<le> decr_interval ctx \<Longrightarrow>
   fits inputs (decr_interval ctx) \<Longrightarrow> sorted (t0 # map timestamp inputs) \<Longrightarrow>
   next_bitrate_decr ctx \<le> t0 + nat (decr_interval ctx) \<Longrightarrow>
     (\<forall>c\<in>set (adaptive_trace ctx inputs). next_bitrate_decr ctx \<le> next_bitrate_decr c)
     \<and> sorted (map next_bitrate_decr (adaptive_trace ctx inputs))"
proof (induction inputs arbitrary: ctx t0)
  case Nil
  then show ?case by simp
next
  case (Cons i inputs)
  have s: "next_bitrate_decr ctx \<le> next_bitrate_decr (adaptive_next ctx i)
         \<and> next_bitrate_decr (adaptive_next ctx i) \<le> timestamp i + nat (decr_interval ctx)"
    using adaptive_next_decr_mono [of ctx i t0] Cons.prems by (simp add: fits_def)
  have "(\<forall>c\<in>set (adaptive_trace (adaptive_next ctx i) inputs).
            next_bitrate_decr (adaptive_next ctx i) \<le> next_bitrate_decr c)
        \<and> sorted (map next_bitrate_decr (adaptive_trace (adaptive_next ctx i) inputs))"
    using Cons.IH [of "adaptive_next ctx i" "timestamp i"] Cons.prems s
    by (simp add: adaptive_next_intervals fits_def)
  then show ?case using s by fastforce
qed

text \<open>The AIMD stages.\<close>

lemma aimd_next_intervals:
  "a_incr_interval (snd (aimd_update s i)) = a_incr_interval s"
  "a_decr_interval (snd (aimd_update s i)) = a_decr_interval s"
  by (simp_all add: aimd_update_snd aimd_clamp_def aimd_adjust_def aimd_snap_def aimd_baseline_def)

lemma aimd_next_incr_mono:
  assumes "0 \<le> a_incr_interval s" "timestamp i + nat (a_incr_interval s) < 2 ^ 64"
  shows "next_incr s \<le> next_incr (snd (aimd_update s i))"
  using assms
  by (simp add: aimd_update_snd aimd_clamp_def aimd_adjust_def aimd_snap_def aimd_baseline_def
        u64_add_plain)

lemma aimd_next_decr_mono:
  assumes d: "0 \<le> a_decr_interval s" and f: "timestamp i + nat (a_decr_interval s) < 2 ^ 64"
      and inv: "next_decr s \<le> t0 + nat (a_decr_interval s)" and t: "t0 \<le> timestamp i"
  shows "next_decr s \<le> next_decr (snd (aimd_update s i))
       \<and> next_decr (snd (aimd_update s i)) \<le> timestamp i + nat (a_decr_interval s)"
  using inv t
  by (simp add: aimd_update_snd aimd_clamp_def aimd_adjust_def aimd_snap_def aimd_baseline_def
        u64_add_plain [OF d f])

lemma aimd_trace_incr:
  "0 \<le> a_incr_interval s \<Longrightarrow> fits inputs (a_incr_interval s) \<Longrightarrow>
     (\<forall>c\<in>set (aimd_trace s inputs). next_incr s \<le> next_incr c)
     \<and> sorted (map next_incr (aimd_trace s inputs))"
proof (induction inputs arbitrary: s)
  case Nil
  then show ?case by simp
next
  case (Cons i inputs)
  have st: "next_incr s \<le> next_incr (snd (aimd_update s i))"
    using aimd_next_incr_mono [of s i] Cons.prems by (simp add: fits_def)
  have "(\<forall>c\<in>set (aimd_trace (snd (aimd_update s i)) inputs).
            next_incr (snd (aimd_update s i)) \<le> next_incr c)
        \<and> sorted (map next_incr (aimd_trace (snd (aimd_update s i)) inputs))"
    using Cons.IH [of "snd (aimd_update s i)"] Cons.prems
    by (simp add: aimd_next_intervals fits_def)
  then show ?case using st by fastforce
qed

lemma aimd_trace_decr:
  "0 \<le> a_decr_interval s \<Longrightarrow> fits inputs (a_decr_interval s) \<Longrightarrow>
   sorted (t0 # map timestamp inputs) \<Longrightarrow> next_decr s \<le> t0 + nat (a_decr_interval s) \<Longrightarrow>
     (\<forall>c\<in>set (aimd_trace s inputs). next_decr s \<le> next_decr c)
     \<and> sorted (map next_decr (aimd_trace s inputs))"
proof (induction inputs arbitrary: s t0)
  case Nil
  then show ?case by simp
next
  case (Cons i inputs)
  have st: "next_decr s \<le> next_decr (snd (aimd_update s i))
         \<and> next_decr (snd (aimd_update s i)) \<le> timestamp i + nat (a_decr_interval s)"
    using aimd_next_decr_mono [of s i t0] Cons.prems by (simp add: fits_def)
  have "(\<forall>c\<in>set (aimd_trace (snd (aimd_update s i)) inputs).
            next_decr (snd (aimd_update s i)) \<le> next_decr c)
        \<and> sorted (map next_decr (aimd_trace (snd (aimd_update s i)) inputs))"
    using Cons.IH [of "snd (aimd_update s i)" "timestamp i"] Cons.prems st
    by (simp add: aimd_next_intervals fits_def)
  then show ?case using st by fastforce
qed

lemma adaptive_start_default:
  "adaptive_start (default_config mn mx latency) = start_context (mn * 1000) (mx * 1000) latency"
  by (simp add: adaptive_start_def default_config_eval start_context_def)

text \<open>
  Claim C7 says that for every algorithm non-decreasing timestamps give non-decreasing
  deadlines \<open>next_incr_ts\<close> and \<open>next_decr_ts\<close>.  In the adaptive algorithm a heavy
  decrease sets \<open>next_bitrate_decr\<close> to \<open>t + decr_fast_interval\<close> (250 ms), and the
  emergency branch, which is not gated by the deadline, sets it to \<open>t + decr_interval\<close>
  (200 ms by default).  With the default configuration a heavy tick at 1000 ms followed
  by an emergency tick at 1020 ms moves the deadline from 1250 back to 1220.
\<close>

theorem decr_deadline_lowered_counterexample:
  "sorted (map timestamp [sample 10 500 5 1000 0 0, sample 10 700 5 1020 0 0])
   \<and> map next_bitrate_decr
       (adaptive_trace (adaptive_start (default_config 500 6000 2000))
          [sample 10 500 5 1000 0 0, sample 10 700 5 1020 0 0])
     = [0, 1250, 1220]"
proof -
  have s1: "bitrate_update (start_context 500000 6000000 2000) 10 500 5 1000 0 0 =
      (5300000,
       \<lparr> res_new_bitrate = 5300000, res_throughput = 9375 / 64, res_rtt = 500,
         res_rtt_th_min = 600, res_rtt_th_max = 1300, res_bs = 10,
         res_bs_th1 = 50, res_bs_th2 = 13, res_bs_th3 = 40 \<rparr>,
       \<lparr> min_bitrate = 500000, max_bitrate = 6000000, srt_latency = 2000,
         srt_pkt_size = 1316, incr_step = 30000, decr_step = 100000,
         incr_interval = 500, decr_interval = 200, decr_fast_interval = 250,
         cur_bitrate = 5300000, bs_avg = 1 / 10, bs_jitter = 10, prev_bs = 10,
         rtt_avg = 500, rtt_min = 1001 / 5, rtt_jitter = 200,
         rtt_avg_delta = 40, prev_rtt = 500, throughput = 9375 / 64,
         prev_pkt_loss = 0, prev_pkt_retrans = 0, loss_rate = 0,
         next_bitrate_incr = 0, next_bitrate_decr = 1250 \<rparr>)"
    apply (simp only: bitrate_update_def Let_def)
    apply (simp add: block_defs)
    done
  have n1: "adaptive_next (start_context 500000 6000000 2000) (sample 10 500 5 1000 0 0) =
       \<lparr> min_bitrate = 500000, max_bitrate = 6000000, srt_latency = 2000,
         srt_pkt_size = 1316, incr_step = 30000, decr_step = 100000,
         incr_interval = 500, decr_interval = 200, decr_fast_interval = 250,
         cur_bitrate = 5300000, bs_avg = 1 / 10, bs_jitter = 10, prev_bs = 10,
         rtt_avg = 500, rtt_min = 1001 / 5, rtt_jitter = 200,
         rtt_avg_delta = 40, prev_rtt = 500, throughput = 9375 / 64,
         prev_pkt_loss = 0, prev_pkt_retrans = 0, loss_rate = 0,
         next_bitrate_incr = 0, next_bitrate_decr = 1250 \<rparr>"
    by (simp add: adaptive_next_def sample_def s1)
  have s2: "next_bitrate_decr (snd (snd (bitrate_update
       \<lparr> min_bitrate = 500000, max_bitrate = 6000000, srt_latency = 2000,
         srt_pkt_size = 1316, incr_step = 30000, decr_step = 100000,
         incr_interval = 500, decr_interval = 200, decr_fast_interval = 250,
         cur_bitrate = 5300000, bs_avg = 1 / 10, bs_jitter = 10, prev_bs = 10,
         rtt_avg = 500, rtt_min = 1001 / 5, rtt_jitter = 200,
         rtt_avg_delta = 40, prev_rtt = 500, throughput = 9375 / 64,
         prev_pkt_loss = 0, prev_pkt_retrans = 0, loss_rate = 0,
         next_bitrate_incr = 0, next_bitrate_decr = 1250 \<rparr> 10 700 5 1020 0 0))) = 1220"
    apply (simp only: bitrate_update_def Let_def)
    apply (simp add: block_defs)
    done
  have n2: "next_bitrate_decr (adaptive_next
              (adaptive_next (start_context 500000 6000000 2000) (sample 10 500 5 1000 0 0))
              (sample 10 700 5 1020 0 0)) = 1220"
    unfolding n1 using s2 by (simp add: adaptive_next_def sample_def)
  have n0: "next_bitrate_decr (start_context 500000 6000000 2000) = 0"
    by (simp add: start_context_def bitrate_context_init_def)
  have n1d: "next_bitrate_decr (adaptive_next (start_context 500000 6000000 2000)
               (sample 10 500 5 1000 0 0)) = 1250"
    unfolding n1 by simp
  have a: "adaptive_start (default_config 500 6000 2000) = start_context 500000 6000000 2000"
    using adaptive_start_default [of 500 6000 2000] by simp
  have t: "sorted (map timestamp [sample 10 500 5 1000 0 0, sample 10 700 5 1020 0 0])"
    by (simp add: sample_def)
  show ?thesis
    unfolding a using t by (simp add: n0 n1d n2)
qed

text \<open>
  Claim C7 as amended.  Let the timestamps of successive calls be non-decreasing and
  small enough that no deadline wraps around in \<open>uint64_t\<close>.  From the initial state of
  the AIMD algorithm both deadlines are non-decreasing across the calls.  From the
  initial state of the adaptive algorithm \<open>next_bitrate_incr\<close> is non-decreasing, and
  \<open>next_bitrate_decr\<close> is non-decreasing whenever the configured \<open>decr_interval\<close> is at
  least \<open>decr_fast_interval\<close> (250 ms).  (The fixed algorithm keeps no deadlines.)
\<close>

theorem deadlines_monotone:
  assumes "sorted (map timestamp inputs)"
      and "fits inputs (a_incr_interval (aimd_init_state cfg))"
      and "fits inputs (a_decr_interval (aimd_init_state cfg))"
      and "fits inputs (incr_interval (adaptive_start cfg))"
      and "fits inputs (decr_interval (adaptive_start cfg))"
  shows "sorted (map next_incr (aimd_trace (aimd_init_state cfg) inputs))
       \<and> sorted (map next_decr (aimd_trace (aimd_init_state cfg) inputs))
       \<and> sorted (map next_bitrate_incr (adaptive_trace (adaptive_start cfg) inputs))
       \<and> (decr_fast_interval (adaptive_start cfg) \<le> decr_interval (adaptive_start cfg)
            \<longrightarrow> sorted (map next_bitrate_decr (adaptive_trace (adaptive_start cfg) inputs)))"
proof -
  have t0: "sorted (0 # map timestamp inputs)"
    using assms(1) by simp
  have ai: "0 \<le> a_incr_interval (aimd_init_state cfg)" "0 \<le> a_decr_interval (aimd_init_state cfg)"
           "next_decr (aimd_init_state cfg) \<le> 0 + nat (a_decr_interval (aimd_init_state cfg))"
    by (simp_all add: aimd_init_state_def)
  have bi: "0 \<le> incr_interval (adaptive_start cfg)" "0 \<le> decr_fast_interval (adaptive_start cfg)"
           "next_bitrate_decr (adaptive_start cfg) \<le> 0 + nat (decr_interval (adaptive_start cfg))"
    by (simp_all add: adaptive_start_def bitrate_context_init_def)
  have 1: "sorted (map next_incr (aimd_trace (aimd_init_state cfg) inputs))"
    using aimd_trace_incr [OF ai(1) assms(2)] by blast
  have 2: "sorted (map next_decr (aimd_trace (aimd_init_state cfg) inputs))"
    using aimd_trace_decr [OF ai(2) assms(3) t0 ai(3)] by blast
  have 3: "sorted (map next_bitrate_incr (adaptive_trace (adaptive_start cfg) inputs))"
    using adaptive_trace_incr [OF bi(1) assms(4)] by blast
  have 4: "sorted (map next_bitrate_decr (adaptive_trace (adaptive_start cfg) inputs))"
    if "decr_fast_interval (adaptive_start cfg) \<le> decr_interval (adaptive_start cfg)"
    using adaptive_trace_decr [OF bi(2) that assms(5) t0 bi(3)] by blast
  show ?thesis using 1 2 3 4 by blast
qed

text \<open>
  The witness repeats the two ticks of the counterexample with \<open>decr_interval\<close> set to
  300 ms, where the emergency tick moves the deadline from 1250 on to 1320.
\<close>

theorem deadlines_monotone_witness:
  "sorted (map timestamp [sample 10 500 5 1000 0 0, sample 10 700 5 1020 0 0])
   \<and> fits [sample 10 500 5 1000 0 0, sample 10 700 5 1020 0 0] 500
   \<and> fits [sample 10 500 5 1000 0 0, sample 10 700 5 1020 0 0] 300
   \<and> fits [sample 10 500 5 1000 0 0, sample 10 700 5 1020 0 0] 200
   \<and> decr_fast_interval (adaptive_start ((default_config 500 6000 2000)\<lparr> adaptive_decr_interval := 300 \<rparr>))
       \<le> decr_interval (adaptive_start ((default_config 500 6000 2000)\<lparr> adaptive_decr_interval := 300 \<rparr>))
   \<and> sorted (map next_incr
        (aimd_trace (aimd_init_state ((default_config 500 6000 2000)\<lparr> adaptive_decr_interval := 300 \<rparr>))
           [sample 10 500 5 1000 0 0, sample 10 700 5 1020 0 0]))
   \<and> sorted (map next_decr
        (aimd_trace (aimd_init_state ((default_config 500 6000 2000)\<lparr> adaptive_decr_interval := 300 \<rparr>))
           [sample 10 500 5 1000 0 0, sample 10 700 5 1020 0 0]))
   \<and> sorted (map next_bitrate_incr
        (adaptive_trace (adaptive_start ((default_config 500 6000 2000)\<lparr> adaptive_decr_interval := 300 \<rparr>))
           [sample 10 500 5 1000 0 0, sample 10 700 5 1020 0 0]))
   \<and> sorted (map next_bitrate_decr
        (adaptive_trace (adaptive_start ((default_config 500 6000 2000)\<lparr> adaptive_decr_interval := 300 \<rparr>))
           [sample 10 500 5 1000 0 0, sample 10 700 5 1020 0 0]))"
proof -
  let ?cfg = "(default_config 500 6000 2000)\<lparr> adaptive_decr_interval := 300 \<rparr>"
  let ?inputs = "[sample 10 500 5 1000 0 0, sample 10 700 5 1020 0 0]"
  have v: "a_incr_interval (aimd_init_state ?cfg) = 500" "a_decr_interval (aimd_init_state ?cfg) = 200"
          "incr_interval (adaptive_start ?cfg) = 500" "decr_interval (adaptive_start ?cfg) = 300"
          "decr_fast_interval (adaptive_start ?cfg) = 250"
    by (simp_all add: aimd_init_state_def adaptive_start_def bitrate_context_init_def
          default_config_eval)
  have h: "sorted (map timestamp ?inputs)" "fits ?inputs 500" "fits ?inputs 300" "fits ?inputs 200"
    by (simp_all add: fits_def sample_def)
  show ?thesis
    using deadlines_monotone [of ?inputs ?cfg] h unfolding v by simp
qed

subsection \<open>Binary64 rounding\<close>

lemma round_even_ge: "\<lfloor>y\<rfloor> \<le> round_even y"
  by (simp add: round_even_def Let_def)

lemma round_even_le: "real_of_int (round_even y) \<le> y + 1 / 2"
  unfolding round_even_def Let_def by (simp; linarith)

lemma round_even_le_ceiling: "round_even y \<le> \<lceil>y\<rceil>"
  unfolding round_even_def Let_def by (simp; linarith)

lemma double_exponent_le:
  assumes "\<bar>x\<bar> < 2 ^ 53"
  shows "double_exponent x \<le> 52"
proof (cases "1 \<le> \<bar>x\<bar>")
  case True
  let ?n = "\<lfloor>\<bar>x\<bar>\<rfloor>"
  have p: "0 < ?n" using True by simp
  have "?n < 2 ^ 53"
    using assms by (simp add: floor_less_iff)
  then have lt: "(2::int) ^ nat (bitlen ?n - 1) < 2 ^ 53"
    using bitlen_bounds [OF p] by linarith
  have "nat (bitlen ?n - 1) < 53"
    by (rule power_less_imp_less_exp [OF _ lt]) simp
  then show ?thesis using True by (simp add: double_exponent_def)
next
  case False
  then show ?thesis
    using bitlen_nonneg [of "\<lceil>1 / \<bar>x\<bar>\<rceil> - 1"] by (simp add: double_exponent_def)
qed

lemma double_exponent_ge:
  assumes "1 \<le> \<bar>x\<bar>"
  shows "0 \<le> double_exponent x" and "2 ^ nat (double_exponent x) \<le> \<bar>x\<bar>"
proof -
  let ?n = "\<lfloor>\<bar>x\<bar>\<rfloor>"
  have p: "0 < ?n" using assms by simp
  have e: "double_exponent x = bitlen ?n - 1"
    using assms by (simp add: double_exponent_def)
  have "bitlen ?n \<noteq> 0"
    using p by (simp add: bitlen_eq_zero_iff)
  then show "0 \<le> double_exponent x"
    using bitlen_nonneg [of ?n] e by linarith
  have "(2::int) ^ nat (bitlen ?n - 1) \<le> ?n"
    using bitlen_bounds [OF p] by simp
  then have "real_of_int (2 ^ nat (bitlen ?n - 1)) \<le> real_of_int ?n"
    by (simp only: of_int_le_iff)
  then have "(2::real) ^ nat (bitlen ?n - 1) \<le> real_of_int ?n"
    by simp
  moreover have "real_of_int ?n \<le> \<bar>x\<bar>"
    by (rule of_int_floor_le)
  ultimately show "2 ^ nat (double_exponent x) \<le> \<bar>x\<bar>"
    unfolding e by (rule order_trans)
qed

text \<open>
  \<open>double_exponent\<close> is the binary exponent, \<open>double_round\<close> returns a multiple of
  the unit in the last place, and that multiple is a nearest one.
\<close>

lemma real_le_pow2: "(i::int) \<le> 2 ^ k \<Longrightarrow> real_of_int i \<le> 2 ^ k"
  using of_int_le_iff [of i "2 ^ k", where ?'a = real] by simp

lemma real_ge_pow2: "2 ^ k \<le> (i::int) \<Longrightarrow> 2 ^ k \<le> real_of_int i"
  using of_int_le_iff [of "2 ^ k" i, where ?'a = real] by simp

lemma double_exponent_bounds:
  assumes "x \<noteq> 0"
  shows "2 powi double_exponent x \<le> \<bar>x\<bar>" and "\<bar>x\<bar> < 2 powi (double_exponent x + 1)"
proof -
  have "2 powi double_exponent x \<le> \<bar>x\<bar> \<and> \<bar>x\<bar> < 2 powi (double_exponent x + 1)"
  proof (cases "1 \<le> \<bar>x\<bar>")
    case True
    let ?n = "\<lfloor>\<bar>x\<bar>\<rfloor>"
    define k where "k = nat (bitlen ?n - 1)"
    have p: "0 < ?n" using True by simp
    have b1: "1 \<le> bitlen ?n"
      using p bitlen_nonneg [of ?n] bitlen_eq_zero_iff [of ?n] by linarith
    have e: "double_exponent x = int k" "double_exponent x + 1 = int (Suc k)"
      using True b1 by (simp_all add: double_exponent_def k_def)
    have k: "nat (bitlen ?n) = Suc k"
      using b1 by (simp add: k_def)
    have "(2::int) ^ k \<le> ?n" "?n < 2 ^ Suc k"
      using bitlen_bounds [OF p] unfolding k k_def by simp_all
    then have i: "?n + 1 \<le> 2 ^ Suc k" "2 ^ k \<le> ?n"
      by simp_all
    have "real_of_int (?n + 1) \<le> 2 ^ Suc k"
      using i(1) by (rule real_le_pow2)
    moreover have "(2::real) ^ k \<le> real_of_int ?n"
      using i(2) by (rule real_ge_pow2)
    moreover have "real_of_int ?n \<le> \<bar>x\<bar>" "\<bar>x\<bar> < real_of_int (?n + 1)"
      by linarith+
    ultimately have "(2::real) ^ k \<le> \<bar>x\<bar>" "\<bar>x\<bar> < 2 ^ Suc k"
      by linarith+
    moreover have "(2::real) powi double_exponent x = 2 ^ k"
      by (simp only: e(1) power_int_of_nat)
    moreover have "(2::real) powi (double_exponent x + 1) = 2 ^ Suc k"
      by (simp only: e(2) power_int_of_nat)
    ultimately show ?thesis
      by (simp only:)
  next
    case False
    let ?y = "1 / \<bar>x\<bar>"
    let ?n = "\<lceil>?y\<rceil> - 1"
    have a: "0 < \<bar>x\<bar>" "\<bar>x\<bar> < 1" using assms False by simp_all
    have y1: "1 < ?y" using a by simp
    have p: "0 < ?n" using y1 by linarith
    define k where "k = nat (bitlen ?n - 1)"
    have b1: "1 \<le> bitlen ?n"
      using p bitlen_nonneg [of ?n] bitlen_eq_zero_iff [of ?n] by linarith
    have k: "nat (bitlen ?n) = Suc k"
      using b1 by (simp add: k_def)
    have e: "double_exponent x = - int (Suc k)" "double_exponent x + 1 = - int k"
      using False b1 by (simp_all add: double_exponent_def k_def)
    have "(2::int) ^ k \<le> ?n" "?n < 2 ^ Suc k"
      using bitlen_bounds [OF p] unfolding k k_def by simp_all
    then have i: "?n + 1 \<le> 2 ^ Suc k" "2 ^ k \<le> ?n"
      by simp_all
    have "real_of_int (?n + 1) \<le> 2 ^ Suc k"
      using i(1) by (rule real_le_pow2)
    moreover have "(2::real) ^ k \<le> real_of_int ?n"
      using i(2) by (rule real_ge_pow2)
    moreover have "real_of_int ?n < ?y" "?y \<le> real_of_int (?n + 1)"
      by linarith+
    ultimately have y: "(2::real) ^ k < ?y" "?y \<le> 2 ^ Suc k"
      by linarith+
    have 1: "1 / 2 ^ Suc k \<le> \<bar>x\<bar>"
      using y(2) a(1) by (simp add: field_simps)
    have 2: "\<bar>x\<bar> < 1 / 2 ^ k"
      using y(1) a(1) by (simp add: field_simps)
    have "(2::real) powi double_exponent x = 1 / 2 ^ Suc k"
      by (simp only: e(1) power_int_minus power_int_of_nat inverse_eq_divide)
    moreover have "(2::real) powi (double_exponent x + 1) = 1 / 2 ^ k"
      by (simp only: e(2) power_int_minus power_int_of_nat inverse_eq_divide)
    ultimately show ?thesis
      using 1 2 by (simp only:)
  qed
  then show "2 powi double_exponent x \<le> \<bar>x\<bar>" and "\<bar>x\<bar> < 2 powi (double_exponent x + 1)"
    by simp_all
qed

lemma double_ulp_pos: "0 < double_ulp x"
  by (simp add: double_ulp_def)

lemma double_round_multiple: "\<exists>n. double_round x = real_of_int n * double_ulp x"
proof (cases "x = 0")
  case True
  then have "double_round x = real_of_int 0 * double_ulp x" by (simp add: double_round_def)
  then show ?thesis by blast
next
  case False
  then have "double_round x = real_of_int (round_even (x / double_ulp x)) * double_ulp x"
    by (simp add: double_round_def)
  then show ?thesis by blast
qed

lemma double_round_nearest: "\<bar>double_round x - x\<bar> \<le> double_ulp x / 2"
proof (cases "x = 0")
  case True
  then show ?thesis using double_ulp_pos [of x] by (simp add: double_round_def)
next
  case False
  let ?u = "double_ulp x"
  let ?y = "x / ?u"
  have u: "0 < ?u" by (rule double_ulp_pos)
  have "real_of_int \<lfloor>?y\<rfloor> \<le> ?y" "?y < real_of_int \<lfloor>?y\<rfloor> + 1"
    by linarith+
  then have "\<bar>real_of_int (round_even ?y) - ?y\<bar> \<le> 1 / 2"
    unfolding round_even_def Let_def by (simp; linarith)
  then have "\<bar>real_of_int (round_even ?y) - ?y\<bar> * ?u \<le> 1 / 2 * ?u"
    using u by (simp only: mult_le_cancel_right_pos)
  moreover have "\<bar>real_of_int (round_even ?y) - ?y\<bar> * ?u = \<bar>double_round x - x\<bar>"
  proof -
    have "\<bar>real_of_int (round_even ?y) - ?y\<bar> * ?u = \<bar>(real_of_int (round_even ?y) - ?y) * ?u\<bar>"
      using u by (simp add: abs_mult)
    also have "(real_of_int (round_even ?y) - ?y) * ?u = double_round x - x"
      using u False by (simp add: double_round_def left_diff_distrib)
    finally show ?thesis .
  qed
  ultimately show ?thesis by simp
qed

text \<open>Below \<open>2 ^ 53\<close> the unit in the last place is the inverse of a power of two.\<close>

lemma double_ulp_inverse:
  assumes "\<bar>x\<bar> < 2 ^ 53"
  shows "double_ulp x = 1 / 2 ^ nat (52 - max (double_exponent x) (- 1022))"
proof -
  let ?j = "max (double_exponent x) (- 1022) - 52"
  have j: "?j \<le> 0" using double_exponent_le [OF assms] by simp
  have "(2::real) powi ?j = inverse (2 powi (- ?j))"
    by (simp only: power_int_minus inverse_inverse_eq)
  also have "\<dots> = 1 / 2 ^ nat (- ?j)"
    using j by (simp add: power_int_def inverse_eq_divide)
  finally show ?thesis by (simp add: double_ulp_def)
qed

text \<open>Rounding never crosses an integer: it stays at or above the integer part.\<close>

lemma double_round_ge_floor:
  assumes "0 \<le> x" and "x < 2 ^ 53"
  shows "real_of_int \<lfloor>x\<rfloor> \<le> double_round x"
proof (cases "x = 0")
  case True
  then show ?thesis by (simp add: double_round_def)
next
  case False
  define k where "k = nat (52 - max (double_exponent x) (- 1022))"
  have u: "double_ulp x = 1 / 2 ^ k"
    using double_ulp_inverse [of x] assms by (simp add: k_def)
  have r: "double_round x = real_of_int (round_even (x * 2 ^ k)) / 2 ^ k"
    using False by (simp add: double_round_def u)
  have "real_of_int (\<lfloor>x\<rfloor> * 2 ^ k) \<le> x * 2 ^ k"
    by (simp add: mult_right_mono)
  then have "\<lfloor>x\<rfloor> * 2 ^ k \<le> \<lfloor>x * 2 ^ k\<rfloor>"
    by (simp only: le_floor_iff)
  then have "\<lfloor>x\<rfloor> * 2 ^ k \<le> round_even (x * 2 ^ k)"
    using round_even_ge [of "x * 2 ^ k"] by linarith
  then have "real_of_int (\<lfloor>x\<rfloor> * 2 ^ k) \<le> real_of_int (round_even (x * 2 ^ k))"
    by (simp only: of_int_le_iff)
  then have "real_of_int \<lfloor>x\<rfloor> * 2 ^ k \<le> real_of_int (round_even (x * 2 ^ k))"
    by simp
  then show ?thesis
    unfolding r by (simp add: pos_le_divide_eq)
qed

text \<open>The relative error of rounding is at most \<open>2 ^ (- 53)\<close>.\<close>

lemma double_round_le_rel:
  assumes "1 \<le> x" and "x < 2 ^ 53"
  shows "double_round x \<le> x + x / 2 ^ 53"
proof -
  define e where "e = double_exponent x"
  have a: "\<bar>x\<bar> = x" "1 \<le> \<bar>x\<bar>" "\<bar>x\<bar> < 2 ^ 53" using assms by simp_all
  have e0: "0 \<le> e" and e1: "e \<le> 52" and ex: "2 ^ nat e \<le> x"
    using double_exponent_ge [OF a(2)] double_exponent_le [OF a(3)] a(1) by (simp_all add: e_def)
  define k where "k = nat (52 - e)"
  have m: "max e (- 1022) = e" using e0 by simp
  have u: "double_ulp x = 1 / 2 ^ k"
    using double_ulp_inverse [OF a(3)] by (simp add: k_def e_def [symmetric] m)
  have x0: "x \<noteq> 0" using assms by simp
  have r: "double_round x = real_of_int (round_even (x * 2 ^ k)) / 2 ^ k"
    using x0 by (simp add: double_round_def u)
  have "real_of_int (round_even (x * 2 ^ k)) \<le> x * 2 ^ k + 1 / 2"
    by (rule round_even_le)
  then have "real_of_int (round_even (x * 2 ^ k)) / 2 ^ k \<le> (x * 2 ^ k + 1 / 2) / 2 ^ k"
    by (simp add: divide_right_mono)
  then have 1: "double_round x \<le> x + 1 / (2 * 2 ^ k)"
    unfolding r by (simp add: add_divide_distrib)
  have ke: "nat e + k = 52" using e0 e1 by (simp add: k_def)
  have "(2::real) ^ nat e * 2 ^ k = 2 ^ 52"
    using ke by (simp add: power_add [symmetric])
  then have "1 / (2 * (2::real) ^ k) = 2 ^ nat e / 2 ^ 53"
    by (simp add: field_simps)
  also have "\<dots> \<le> x / 2 ^ 53"
    using ex by (simp add: divide_right_mono)
  finally show ?thesis using 1 by linarith
qed

lemma double_round_small:
  assumes "0 \<le> x" and "x < 1"
  shows "double_round x \<le> 1"
proof (cases "x = 0")
  case True
  then show ?thesis by (simp add: double_round_def)
next
  case False
  define k where "k = nat (52 - max (double_exponent x) (- 1022))"
  have u: "double_ulp x = 1 / 2 ^ k"
    using double_ulp_inverse [of x] assms by (simp add: k_def)
  have r: "double_round x = real_of_int (round_even (x * 2 ^ k)) / 2 ^ k"
    using False by (simp add: double_round_def u)
  have "x * 2 ^ k \<le> real_of_int (2 ^ k)"
    using assms by (simp add: mult_left_le_one_le)
  then have c: "\<lceil>x * 2 ^ k\<rceil> \<le> 2 ^ k"
    by (simp only: ceiling_le_iff)
  have "round_even (x * 2 ^ k) \<le> 2 ^ k"
    using c round_even_le_ceiling [of "x * 2 ^ k"] by linarith
  then have "real_of_int (round_even (x * 2 ^ k)) \<le> real_of_int (2 ^ k)"
    by (simp only: of_int_le_iff)
  then show ?thesis
    unfolding r by (simp add: pos_divide_le_eq)
qed

text \<open>
  The products of the two configurations used below: with \<open>decr_mult = 0.75\<close> the
  product is exact; with the double nearest to \<open>0.7\<close>, which is below \<open>0.7\<close>, the
  product of 11 000 000 rounds to the double below 7 700 000 and is truncated to
  7 699 999, and the product of 6 000 000 rounds to 4 200 000.
\<close>

lemma double_round_07: "double_round 0.7 = 3152519739159347 / 4503599627370496"
  by (simp add: double_defs)

lemma double_mul_examples:
  "trunc_int (double_mul 6000000 0.75) = 4500000"
  "trunc_int (double_mul 11000000 (double_round 0.7)) = 7699999"
  "trunc_int (double_mul 6000000 (double_round 0.7)) = 4200000"
  by (simp_all add: double_defs trunc_int_def)

text \<open>
  The moving average of the RTT baseline is rounded three times: from the baseline 30
  a sample of 500 gives a baseline just above 53.5.
\<close>

lemma aimd_baseline_example:
  "rtt_baseline (aimd_baseline
       \<lparr> a_min_bitrate = 500000, a_max_bitrate = 11000000, a_cur_bitrate = 11000000,
         a_srt_latency = 2000, a_incr_step = 50000, a_decr_mult = 0.75,
         a_incr_interval = 500, a_decr_interval = 200, rtt_baseline = 30,
         next_incr = 1500, next_decr = 0 \<rparr> 500) = 7529455627010051 / 140737488355328"
  by (simp add: aimd_baseline_def double_defs)

subsection \<open>C5: the multiplicative decrease of AIMD\<close>

lemma round_100k_gt: "0 \<le> c \<Longrightarrow> c < round_100k c + 100000"
proof -
  assume "0 \<le> c"
  then have "round_100k c = c - c mod 100000"
    by (simp add: round_100k_nonneg minus_mod_eq_div_mult)
  moreover have "c mod 100000 < 100000" by simp
  ultimately show ?thesis by linarith
qed

lemma round_100k_pos_arg: "0 < round_100k c \<Longrightarrow> 0 \<le> c"
proof (rule ccontr)
  assume p: "0 < round_100k c" and "\<not> 0 \<le> c"
  then have "c < 0" by simp
  then have "round_100k c = - (\<bar>c\<bar> div 100000) * 100000"
    by (simp add: round_100k_def signed_divide_int_def)
  moreover have "0 \<le> \<bar>c\<bar> div 100000" by simp
  ultimately show False using p by simp
qed

lemma trunc_int_nonneg: "0 \<le> x \<Longrightarrow> trunc_int x = \<lfloor>x\<rfloor>"
  by (simp add: trunc_int_def)

lemma aimd_emergency_baseline: "aimd_emergency (aimd_baseline s r) i = aimd_emergency s i"
  by (simp add: aimd_emergency_def aimd_baseline_def)

text \<open>A congested step that is not the emergency snap, taken after \<open>next_decr\<close>.\<close>

lemma aimd_decrease_cur:
  assumes "\<not> aimd_emergency s i" and "aimd_congested (aimd_baseline s (rtt i)) i"
      and "timestamp i > next_decr s"
  shows "a_cur_bitrate (snd (aimd_update s i)) =
           max (a_min_bitrate s)
               (min (a_max_bitrate s)
                    (trunc_int (double_mul (real_of_int (a_cur_bitrate s)) (a_decr_mult s))))"
proof -
  have e: "\<not> aimd_emergency (aimd_baseline s (rtt i)) i"
    using assms(1) by (simp add: aimd_emergency_baseline)
  have sn: "aimd_snap (aimd_baseline s (rtt i)) i = aimd_baseline s (rtt i)"
    using e by (simp add: aimd_snap_def)
  have b: "next_decr (aimd_baseline s (rtt i)) = next_decr s"
          "a_cur_bitrate (aimd_baseline s (rtt i)) = a_cur_bitrate s"
          "a_decr_mult (aimd_baseline s (rtt i)) = a_decr_mult s"
          "a_min_bitrate (aimd_baseline s (rtt i)) = a_min_bitrate s"
          "a_max_bitrate (aimd_baseline s (rtt i)) = a_max_bitrate s"
    by (simp_all add: aimd_baseline_def)
  show ?thesis
    using assms(2,3) by (simp add: aimd_update_snd sn aimd_adjust_def aimd_clamp_def b)
qed

text \<open>
  The truncated binary64 product of a set-point \<open>c\<close> and a multiplier \<open>m\<close> is at least
  the integer part of the exact product, and it exceeds the exact product by no more
  than \<open>m\<close>.
\<close>

lemma aimd_product_bounds:
  assumes c: "0 \<le> c" "c \<le> INT_MAX" and m: "0 \<le> m" "m \<le> 2148"
  shows "\<lfloor>real_of_int c * m\<rfloor> \<le> trunc_int (double_mul (real_of_int c) m)"
    and "100000 \<le> trunc_int (double_mul (real_of_int c) m)
         \<Longrightarrow> real_of_int (trunc_int (double_mul (real_of_int c) m)) \<le> real_of_int c * m + m"
proof -
  let ?x = "real_of_int c * m"
  have x0: "0 \<le> ?x" using c(1) m(1) by simp
  have "?x \<le> 2147483647 * 2148"
    using c m by (intro mult_mono) simp_all
  then have xlt: "?x < 2 ^ 53" by simp
  have fl: "real_of_int \<lfloor>?x\<rfloor> \<le> double_round ?x"
    using double_round_ge_floor [OF x0 xlt] .
  have f0: "0 \<le> \<lfloor>?x\<rfloor>" using x0 by simp
  have d0: "0 \<le> double_round ?x" using fl f0 by linarith
  have t: "trunc_int (double_mul (real_of_int c) m) = \<lfloor>double_round ?x\<rfloor>"
    using d0 by (simp add: double_mul_def trunc_int_def)
  show "\<lfloor>?x\<rfloor> \<le> trunc_int (double_mul (real_of_int c) m)"
    unfolding t using fl by (simp add: le_floor_iff)
  assume big: "100000 \<le> trunc_int (double_mul (real_of_int c) m)"
  have x1: "1 \<le> ?x"
  proof (rule ccontr)
    assume "\<not> 1 \<le> ?x"
    then have "double_round ?x \<le> 1"
      using double_round_small [OF x0] by simp
    then have "\<lfloor>double_round ?x\<rfloor> \<le> 1"
      by (simp add: floor_le_iff)
    then show False using big t by simp
  qed
  have "real_of_int c / 2 ^ 53 \<le> 1" using c(2) by simp
  then have "real_of_int c / 2 ^ 53 * m \<le> 1 * m"
    using m(1) by (rule mult_right_mono)
  then have r: "?x / 2 ^ 53 \<le> m"
    by (simp only: times_divide_eq_left mult_1)
  have "real_of_int \<lfloor>double_round ?x\<rfloor> \<le> double_round ?x" by simp
  also have "\<dots> \<le> ?x + ?x / 2 ^ 53" using double_round_le_rel [OF x1 xlt] .
  also have "\<dots> \<le> ?x + m" using r by (rule add_left_mono)
  finally show "real_of_int (trunc_int (double_mul (real_of_int c) m)) \<le> ?x + m"
    unfolding t .
qed

text \<open>
  Claim C5 says that in any reachable state a congested AIMD step at a timestamp after
  \<open>next_decr_ts\<close> gives a decision whose ratio to the previous decision lies within
  \<open>[decr_mult - 0.15, decr_mult + 0.10]\<close>.  The product is clamped to the bounds: with
  the default configuration (bounds 500 and 6000 kbps, \<open>decr_mult = 0.75\<close>) a tick with
  RTT 700 at 1000 ms leaves the set-point at the minimum and returns 500 000, and a tick
  with buffer 200 and RTT 500 at 1500 ms, congested, not an emergency and after the
  deadline 1200, multiplies to 375 000, is clamped and returns 500 000 again, a ratio
  of 1.
\<close>

theorem aimd_ratio_counterexample:
  "new_bitrate (fst (aimd_update (aimd_init_state (default_config 500 6000 2000))
                       (sample 10 700 5 1000 0 0))) = 500000
   \<and> \<not> aimd_emergency
          (snd (aimd_update (aimd_init_state (default_config 500 6000 2000))
                  (sample 10 700 5 1000 0 0)))
          (sample 200 500 5 1500 0 0)
   \<and> aimd_congested
        (aimd_baseline (snd (aimd_update (aimd_init_state (default_config 500 6000 2000))
                               (sample 10 700 5 1000 0 0))) 500)
        (sample 200 500 5 1500 0 0)
   \<and> next_decr (snd (aimd_update (aimd_init_state (default_config 500 6000 2000))
                        (sample 10 700 5 1000 0 0))) < 1500
   \<and> a_decr_mult (snd (aimd_update (aimd_init_state (default_config 500 6000 2000))
                          (sample 10 700 5 1000 0 0))) = 0.75
   \<and> new_bitrate (fst (aimd_update
                         (snd (aimd_update (aimd_init_state (default_config 500 6000 2000))
                                 (sample 10 700 5 1000 0 0)))
                         (sample 200 500 5 1500 0 0))) = 500000
   \<and> (0.75 :: real) + 0.10 < 500000 / 500000"
proof -
  have s1: "aimd_update (aimd_init_state (default_config 500 6000 2000)) (sample 10 700 5 1000 0 0) =
      (\<lparr> new_bitrate = 500000, o_throughput = 0, o_rtt = 700, o_rtt_th_min = 700,
         o_rtt_th_max = 1050, o_bs = 10, o_bs_th1 = 100, o_bs_th2 = 100, o_bs_th3 = 100 \<rparr>,
       \<lparr> a_min_bitrate = 500000, a_max_bitrate = 6000000, a_cur_bitrate = 500000,
         a_srt_latency = 2000, a_incr_step = 50000, a_decr_mult = 3 / 4,
         a_incr_interval = 500, a_decr_interval = 200, rtt_baseline = 700,
         next_incr = 0, next_decr = 1200 \<rparr>)"
    apply (simp only: aimd_update_def Let_def)
    apply (simp add: aimd_defs default_config_eval)
    done
  have s2: "new_bitrate (fst (aimd_update
       \<lparr> a_min_bitrate = 500000, a_max_bitrate = 6000000, a_cur_bitrate = 500000,
         a_srt_latency = 2000, a_incr_step = 50000, a_decr_mult = 3 / 4,
         a_incr_interval = 500, a_decr_interval = 200, rtt_baseline = 700,
         next_incr = 0, next_decr = 1200 \<rparr> (sample 200 500 5 1500 0 0))) = 500000"
    apply (simp only: aimd_update_def Let_def)
    apply (simp add: aimd_defs)
    done
  have c: "\<not> aimd_emergency
       \<lparr> a_min_bitrate = 500000, a_max_bitrate = 6000000, a_cur_bitrate = 500000,
         a_srt_latency = 2000, a_incr_step = 50000, a_decr_mult = 3 / 4,
         a_incr_interval = 500, a_decr_interval = 200, rtt_baseline = 700,
         next_incr = 0, next_decr = 1200 \<rparr> (sample 200 500 5 1500 0 0)"
    "aimd_congested (aimd_baseline
       \<lparr> a_min_bitrate = 500000, a_max_bitrate = 6000000, a_cur_bitrate = 500000,
         a_srt_latency = 2000, a_incr_step = 50000, a_decr_mult = 3 / 4,
         a_incr_interval = 500, a_decr_interval = 200, rtt_baseline = 700,
         next_incr = 0, next_decr = 1200 \<rparr> 500) (sample 200 500 5 1500 0 0)"
    by (simp_all add: aimd_defs)
  show ?thesis
    unfolding s1 snd_conv fst_conv using s2 c by simp
qed

text \<open>
  A tick whose RTT reaches \<open>srt_latency / 3\<close> is congested too, and it snaps to
  \<open>min_bitrate\<close> instead of multiplying: after a good tick that returns 6 000 000, a tick
  with RTT 700 returns 500 000.
\<close>

lemma aimd_emergency_snap_example:
  "new_bitrate (fst (aimd_update (aimd_init_state (default_config 500 6000 2000))
                       (sample 10 30 5 1000 0 0))) = 6000000
   \<and> new_bitrate (fst (aimd_update
                         (snd (aimd_update (aimd_init_state (default_config 500 6000 2000))
                                 (sample 10 30 5 1000 0 0)))
                         (sample 10 700 5 1500 0 0))) = 500000"
proof -
  have s1: "aimd_update (aimd_init_state (default_config 500 6000 2000)) (sample 10 30 5 1000 0 0) =
      (\<lparr> new_bitrate = 6000000, o_throughput = 0, o_rtt = 30, o_rtt_th_min = 30,
         o_rtt_th_max = 45, o_bs = 10, o_bs_th1 = 100, o_bs_th2 = 100, o_bs_th3 = 100 \<rparr>,
       \<lparr> a_min_bitrate = 500000, a_max_bitrate = 6000000, a_cur_bitrate = 6000000,
         a_srt_latency = 2000, a_incr_step = 50000, a_decr_mult = 3 / 4,
         a_incr_interval = 500, a_decr_interval = 200, rtt_baseline = 30,
         next_incr = 1500, next_decr = 0 \<rparr>)"
    apply (simp only: aimd_update_def Let_def)
    apply (simp add: aimd_defs default_config_eval)
    done
  have s2: "new_bitrate (fst (aimd_update
       \<lparr> a_min_bitrate = 500000, a_max_bitrate = 6000000, a_cur_bitrate = 6000000,
         a_srt_latency = 2000, a_incr_step = 50000, a_decr_mult = 3 / 4,
         a_incr_interval = 500, a_decr_interval = 200, rtt_baseline = 30,
         next_incr = 1500, next_decr = 0 \<rparr> (sample 10 700 5 1500 0 0))) = 500000"
    apply (simp only: aimd_update_def Let_def)
    apply (simp add: aimd_defs)
    done
  show ?thesis
    unfolding s1 snd_conv fst_conv using s2 by simp
qed

text \<open>
  Claim C5 as amended.  Let a step return the decision \<open>prev\<close> and be followed by a
  congested step that is not the emergency snap (\<open>rtt < srt_latency / 3\<close>), at a
  timestamp after \<open>next_decr_ts\<close>, whose product \<open>(int)(cur_bitrate * decr_mult)\<close>, the
  truncated binary64 product, lies within the bounds, so that the clamp does not change
  it.  Then the new set-point is that product, and when \<open>prev\<close> is large enough for the
  rounding to 100 000 to stay inside the tolerance (\<open>100 001 \<le> 0.15 * prev\<close> and
  \<open>100 000 * decr_mult \<le> 0.10 * prev\<close>) the ratio of the new decision to \<open>prev\<close> lies
  within \<open>[decr_mult - 0.15, decr_mult + 0.10]\<close>.  The state and the sample hold C
  values: \<open>decr_mult\<close>, the RTT baseline and the RTT are doubles, and the set-point and
  \<open>max_bitrate\<close> are at most \<open>INT_MAX\<close>.  The casts of the step are defined: the RTT,
  the new RTT baseline and the threshold product \<open>rtt_baseline * 1.5\<close> have their
  integer parts in the range of \<open>int\<close> (the decrease product has, by the bounds).
\<close>

theorem aimd_decrease_ratio:
  assumes prev: "aimd_update s0 i1 = (out1, s1)"
      and noemerg: "\<not> aimd_emergency s1 i2"
      and congested: "aimd_congested (aimd_baseline s1 (rtt i2)) i2"
      and after: "timestamp i2 > next_decr s1"
      and mult: "0 < a_decr_mult s1"
      and doubles: "is_double (a_decr_mult s1)" "is_double (rtt_baseline s1)" "is_double (rtt i2)"
      and ints: "a_cur_bitrate s1 \<le> INT_MAX" "a_max_bitrate s1 \<le> INT_MAX"
      and casts: "int_castable (rtt i2)"
                 "int_castable (rtt_baseline (aimd_baseline s1 (rtt i2)))"
                 "int_castable (double_mul (rtt_baseline (aimd_baseline s1 (rtt i2))) AIMD_RTT_MULT)"
      and lo: "a_min_bitrate s1
                 \<le> trunc_int (double_mul (real_of_int (a_cur_bitrate s1)) (a_decr_mult s1))"
      and hi: "trunc_int (double_mul (real_of_int (a_cur_bitrate s1)) (a_decr_mult s1))
                 \<le> a_max_bitrate s1"
      and big1: "100001 \<le> 0.15 * real_of_int (new_bitrate out1)"
      and big2: "100000 * a_decr_mult s1 \<le> 0.10 * real_of_int (new_bitrate out1)"
  shows "a_cur_bitrate (snd (aimd_update s1 i2))
           = trunc_int (double_mul (real_of_int (a_cur_bitrate s1)) (a_decr_mult s1))
       \<and> a_decr_mult s1 - 0.15
           \<le> real_of_int (new_bitrate (fst (aimd_update s1 i2))) / real_of_int (new_bitrate out1)
       \<and> real_of_int (new_bitrate (fst (aimd_update s1 i2))) / real_of_int (new_bitrate out1)
           \<le> a_decr_mult s1 + 0.10"
proof -
  let ?c = "a_cur_bitrate s1"
  let ?m = "a_decr_mult s1"
  let ?P = "new_bitrate out1"
  let ?c' = "trunc_int (double_mul (real_of_int ?c) ?m)"
  let ?N = "new_bitrate (fst (aimd_update s1 i2))"
  have P: "?P = round_100k ?c"
    using aimd_update_new_bitrate [of s0 i1] prev by simp
  have b1: "100001 \<le> 15 / 100 * real_of_int ?P"
    using big1 by simp
  have b2: "100000 * ?m \<le> 10 / 100 * real_of_int ?P"
    using big2 by simp
  have Ppos: "0 < real_of_int ?P"
    using b1 by linarith
  have c0: "0 \<le> ?c"
    using Ppos P round_100k_pos_arg [of ?c] by simp
  have cP: "real_of_int ?P \<le> real_of_int ?c" "real_of_int ?c \<le> real_of_int ?P + 99999"
    using round_100k_le [OF c0] round_100k_gt [OF c0] P by simp_all
  have m0: "0 \<le> ?m" using mult by simp
  have "real_of_int ?c \<le> 2147483647" using ints(1) by simp
  then have m1: "?m \<le> 2148"
    using b2 cP(1) by linarith
  have c'ge: "\<lfloor>real_of_int ?c * ?m\<rfloor> \<le> ?c'"
    using aimd_product_bounds(1) [OF c0 ints(1) m0 m1] .
  have x0: "0 \<le> real_of_int ?c * ?m"
    using c0 mult by simp
  have c'0: "0 \<le> ?c'"
    using x0 c'ge by (simp add: order_trans [of 0 "\<lfloor>real_of_int ?c * ?m\<rfloor>"])
  have c'x: "real_of_int ?c * ?m < real_of_int ?c' + 1"
    using c'ge by linarith
  have cur: "a_cur_bitrate (snd (aimd_update s1 i2)) = ?c'"
    using aimd_decrease_cur [OF noemerg congested after] lo hi by simp
  have N: "?N = round_100k ?c'"
    using aimd_update_new_bitrate [of s1 i2] cur by simp
  have Nc: "real_of_int ?N \<le> real_of_int ?c'" "real_of_int ?c' < real_of_int ?N + 100000"
    using round_100k_le [OF c'0] round_100k_gt [OF c'0] N by simp_all
  have xl: "real_of_int ?P * ?m \<le> real_of_int ?c * ?m"
    using cP(1) mult by (simp add: mult_right_mono)
  have xu: "real_of_int ?c * ?m \<le> (real_of_int ?P + 99999) * ?m"
    using cP(2) m0 by (rule mult_right_mono)
  have lower: "(?m - 0.15) * real_of_int ?P \<le> real_of_int ?N"
  proof -
    have "real_of_int ?P * ?m - 100001 < real_of_int ?N"
      using xl c'x Nc(2) by linarith
    then show ?thesis using b1 by (simp add: algebra_simps)
  qed
  have upper: "real_of_int ?N \<le> (?m + 0.10) * real_of_int ?P"
  proof (cases "100000 \<le> ?c'")
    case True
    have "real_of_int ?c' \<le> real_of_int ?c * ?m + ?m"
      using aimd_product_bounds(2) [OF c0 ints(1) m0 m1 True] .
    then have "real_of_int ?N \<le> real_of_int ?P * ?m + 100000 * ?m"
      using xu Nc(1) by (simp add: algebra_simps)
    then show ?thesis using b2 by (simp add: algebra_simps)
  next
    case False
    then have "?c' div 100000 = 0"
      using c'0 by simp
    then have "?N = 0"
      using N c'0 by (simp add: round_100k_nonneg)
    moreover have "0 \<le> (?m + 0.10) * real_of_int ?P"
      using m0 Ppos by simp
    ultimately show ?thesis by simp
  qed
  have l: "?m - 0.15 \<le> real_of_int ?N / real_of_int ?P"
    using lower Ppos by (simp add: pos_le_divide_eq)
  have u: "real_of_int ?N / real_of_int ?P \<le> ?m + 0.10"
    using upper Ppos by (simp add: pos_divide_le_eq)
  show ?thesis using cur l u by blast
qed

text \<open>
  The witness: bounds 500 and 11000 kbps and \<open>decr_mult\<close> the double nearest to \<open>0.7\<close>,
  a good tick at 1000 ms (decision 11 000 000) and a tick with buffer 200 and RTT 500 at
  1250 ms.  The binary64 product is just below 7 700 000, the set-point becomes
  7 699 999 and the decision 7 600 000.
\<close>

theorem aimd_decrease_ratio_witness:
  "\<not> aimd_emergency
        (snd (aimd_update
                (aimd_init_state ((default_config 500 11000 2000)\<lparr> aimd_decr_mult := double_round 0.7 \<rparr>))
                (sample 10 30 5 1000 0 0)))
        (sample 200 500 5 1250 0 0)
   \<and> aimd_congested
        (aimd_baseline
           (snd (aimd_update
                   (aimd_init_state ((default_config 500 11000 2000)\<lparr> aimd_decr_mult := double_round 0.7 \<rparr>))
                   (sample 10 30 5 1000 0 0))) 500)
        (sample 200 500 5 1250 0 0)
   \<and> is_double (double_round 0.7) \<and> is_double 30 \<and> is_double 500
   \<and> new_bitrate (fst (aimd_update
                          (aimd_init_state ((default_config 500 11000 2000)\<lparr> aimd_decr_mult := double_round 0.7 \<rparr>))
                          (sample 10 30 5 1000 0 0))) = 11000000
   \<and> a_cur_bitrate (snd (aimd_update
        (snd (aimd_update
                (aimd_init_state ((default_config 500 11000 2000)\<lparr> aimd_decr_mult := double_round 0.7 \<rparr>))
                (sample 10 30 5 1000 0 0)))
        (sample 200 500 5 1250 0 0))) = 7699999
   \<and> new_bitrate (fst (aimd_update
        (snd (aimd_update
                (aimd_init_state ((default_config 500 11000 2000)\<lparr> aimd_decr_mult := double_round 0.7 \<rparr>))
                (sample 10 30 5 1000 0 0)))
        (sample 200 500 5 1250 0 0))) = 7600000
   \<and> double_round 0.7 - 0.15 \<le> (7600000 :: real) / 11000000
   \<and> (7600000 :: real) / 11000000 \<le> double_round 0.7 + 0.10"
proof -
  let ?s0 = "aimd_init_state ((default_config 500 11000 2000)\<lparr> aimd_decr_mult := double_round 0.7 \<rparr>)"
  let ?s1 = "\<lparr> a_min_bitrate = 500000, a_max_bitrate = 11000000, a_cur_bitrate = 11000000,
         a_srt_latency = 2000, a_incr_step = 50000,
         a_decr_mult = 3152519739159347 / 4503599627370496,
         a_incr_interval = 500, a_decr_interval = 200, rtt_baseline = 30,
         next_incr = 1500, next_decr = 0 \<rparr>"
  let ?o1 = "\<lparr> new_bitrate = 11000000, o_throughput = 0, o_rtt = 30, o_rtt_th_min = 30,
         o_rtt_th_max = 45, o_bs = 10, o_bs_th1 = 100, o_bs_th2 = 100, o_bs_th3 = 100 \<rparr>"
  let ?i2 = "sample 200 500 5 1250 0 0"
  have s1: "aimd_update ?s0 (sample 10 30 5 1000 0 0) = (?o1, ?s1)"
    apply (simp only: aimd_update_def Let_def double_round_07)
    apply (simp add: aimd_defs default_config_eval)
    done
  have h1: "\<not> aimd_emergency ?s1 ?i2"
           "aimd_congested (aimd_baseline ?s1 (rtt ?i2)) ?i2"
           "timestamp ?i2 > next_decr ?s1"
           "0 < a_decr_mult ?s1"
    by (simp_all add: aimd_emergency_def aimd_congested_def sample_def signed_divide_int_def)
  have h2: "is_double (a_decr_mult ?s1)" "is_double (rtt_baseline ?s1)" "is_double (rtt ?i2)"
    by (simp_all add: is_double_def double_defs sample_def)
  have v: "trunc_int (double_mul (real_of_int (a_cur_bitrate ?s1)) (a_decr_mult ?s1)) = 7699999"
    using double_mul_examples(2) by (simp add: double_round_07)
  have h3: "a_cur_bitrate ?s1 \<le> INT_MAX" "a_max_bitrate ?s1 \<le> INT_MAX"
           "a_min_bitrate ?s1 \<le> trunc_int (double_mul (real_of_int (a_cur_bitrate ?s1)) (a_decr_mult ?s1))"
           "trunc_int (double_mul (real_of_int (a_cur_bitrate ?s1)) (a_decr_mult ?s1)) \<le> a_max_bitrate ?s1"
    unfolding v by simp_all
  have h4: "int_castable (rtt ?i2)"
           "int_castable (rtt_baseline (aimd_baseline ?s1 (rtt ?i2)))"
           "int_castable (double_mul (rtt_baseline (aimd_baseline ?s1 (rtt ?i2))) AIMD_RTT_MULT)"
    by (simp_all add: int_castable_def aimd_baseline_def double_defs sample_def)
  have h5: "100001 \<le> 0.15 * real_of_int (new_bitrate ?o1)"
           "100000 * a_decr_mult ?s1 \<le> 0.10 * real_of_int (new_bitrate ?o1)"
    by simp_all
  have n: "new_bitrate (fst (aimd_update ?s1 ?i2)) = round_100k (a_cur_bitrate (snd (aimd_update ?s1 ?i2)))"
    by (rule aimd_update_new_bitrate)
  have r: "round_100k 7699999 = 7600000"
    by (simp add: round_100k_def signed_divide_int_def)
  have d: "is_double (double_round 0.7)" "is_double 30" "is_double 500"
          "rtt ?i2 = 500"
    using h2 by (simp_all add: double_round_07 sample_def)
  show ?thesis
    unfolding s1 snd_conv fst_conv
    using aimd_decrease_ratio [OF s1 h1 h2 h3(1,2) h4 h3(3,4) h5] h1(1,2) d n r unfolding v
    by (simp add: double_round_07)
qed

subsection \<open>C9: the lines of the legacy bitrate file\<close>

lemma trailing_ws_not_digit: "trailing_ws c \<Longrightarrow> \<not> isdigit_c c"
  by (auto simp: trailing_ws_def isdigit_c_def)

lemma digit_not_space: "isdigit_c c \<Longrightarrow> \<not> isspace_c c"
  by (auto simp: isspace_c_def isdigit_c_def)

lemma digit_not_sign: "isdigit_c c \<Longrightarrow> c \<noteq> CHR ''-'' \<and> c \<noteq> CHR ''+''"
  by (auto simp: isdigit_c_def)

lemma sign_not_space: "\<not> isspace_c CHR ''-''" "\<not> isspace_c CHR ''+''"
  by (simp_all add: isspace_c_def)

text \<open>What \<open>strtol\<close> sees after the white space: the sign, the digits and the rest.\<close>

lemma strtol_sign_shape:
  "\<exists>sg. s = sg @ snd (strtol_sign s) \<and> (sg = [] \<or> sg = ''+'' \<or> sg = ''-'')
        \<and> fst (strtol_sign s) = (sg = ''-'')
        \<and> (sg = [] \<longrightarrow> (case s of [] \<Rightarrow> True | c # _ \<Rightarrow> c \<noteq> CHR ''-'' \<and> c \<noteq> CHR ''+''))"
  by (cases s) (auto simp: strtol_sign_def)

lemma strtol_sign_number:
  assumes "sg = [] \<or> sg = ''+'' \<or> sg = ''-''" "ds \<noteq> []" "\<forall>c\<in>set ds. isdigit_c c"
  shows "strtol_sign (sg @ ds @ tr) = (sg = ''-'', ds @ tr)"
proof -
  obtain d ds' where d: "ds = d # ds'" using assms(2) by (cases ds) auto
  then have "isdigit_c d" using assms(3) by simp
  then have "d \<noteq> CHR ''-''" "d \<noteq> CHR ''+''" using digit_not_sign by blast+
  then show ?thesis using assms(1) d by (auto simp: strtol_sign_def)
qed

lemma takeWhile_digits:
  assumes "\<forall>c\<in>set ds. isdigit_c c" "\<forall>c\<in>set tr. trailing_ws c"
  shows "takeWhile isdigit_c (ds @ tr) = ds" "dropWhile isdigit_c (ds @ tr) = tr"
proof -
  have t: "takeWhile isdigit_c tr = []" "dropWhile isdigit_c tr = tr"
    using assms(2) trailing_ws_not_digit by (cases tr; simp)+
  show "takeWhile isdigit_c (ds @ tr) = ds" "dropWhile isdigit_c (ds @ tr) = tr"
    using assms(1) t by (simp_all add: takeWhile_append2 dropWhile_append2)
qed

lemma dropWhile_space_number:
  assumes "\<forall>c\<in>set ws. isspace_c c" "sg = [] \<or> sg = ''+'' \<or> sg = ''-''" "ds \<noteq> []"
          "\<forall>c\<in>set ds. isdigit_c c"
  shows "dropWhile isspace_c (ws @ sg @ ds @ tr) = sg @ ds @ tr"
proof -
  obtain d ds' where d: "ds = d # ds'" using assms(3) by (cases ds) auto
  then have "\<not> isspace_c d" using assms(4) digit_not_space by simp
  then have "dropWhile isspace_c (sg @ ds @ tr) = sg @ ds @ tr"
    using assms(2) d sign_not_space by auto
  then show ?thesis using assms(1) by (simp add: dropWhile_append2)
qed

text \<open>\<open>parse_long\<close> on a padded number.\<close>

lemma parse_long_accepts:
  assumes ws: "\<forall>c\<in>set ws. isspace_c c" and sg: "sg = [] \<or> sg = ''+'' \<or> sg = ''-''"
      and ds: "ds \<noteq> []" "\<forall>c\<in>set ds. isdigit_c c" and tr: "\<forall>c\<in>set tr. trailing_ws c"
      and v: "v = (if sg = ''-'' then - digits_val 0 ds else digits_val 0 ds)"
      and range: "mn \<le> v" "v \<le> mx" "LONG_MIN \<le> mn" "mx \<le> LONG_MAX"
  shows "parse_long (Some (ws @ sg @ ds @ tr)) mn mx = Some v"
proof -
  let ?s = "ws @ sg @ ds @ tr"
  have 1: "dropWhile isspace_c ?s = sg @ ds @ tr"
    using dropWhile_space_number [OF ws sg ds] .
  have 2: "strtol_sign (sg @ ds @ tr) = (sg = ''-'', ds @ tr)"
    using strtol_sign_number [OF sg ds] .
  have 3: "takeWhile isdigit_c (ds @ tr) = ds" "dropWhile isdigit_c (ds @ tr) = tr"
    using takeWhile_digits [OF ds(2) tr] .
  have w: "(if sg = ''-'' then - digits_val 0 ds else digits_val 0 ds) = v"
    using v by simp
  have vr: "\<not> v > LONG_MAX" "\<not> v < LONG_MIN"
    using range by linarith+
  have st: "strtol ?s = (v, tr, False)"
    using ds(1) vr w by (auto simp: strtol_def 1 2 3 Let_def)
  have ne: "?s \<noteq> []" "tr \<noteq> ?s"
    using ds(1) by auto
  have dw: "dropWhile trailing_ws tr = []"
    using tr by simp
  show ?thesis
    using range ne dw by (simp add: parse_long_def st)
qed

text \<open>Whatever \<open>parse_long\<close> accepts is a padded number.\<close>

lemma strtol_cases:
  "strtol s =
     (let neg = fst (strtol_sign (dropWhile isspace_c s));
          s2 = snd (strtol_sign (dropWhile isspace_c s));
          ds = takeWhile isdigit_c s2;
          v = (if neg then - digits_val 0 ds else digits_val 0 ds)
      in if ds = [] then (0, s, False)
         else if v > LONG_MAX then (LONG_MAX, dropWhile isdigit_c s2, True)
         else if v < LONG_MIN then (LONG_MIN, dropWhile isdigit_c s2, True)
         else (v, dropWhile isdigit_c s2, False))"
  by (simp add: strtol_def split_def Let_def)

lemma parse_long_accepted:
  assumes "parse_long (Some s) mn mx = Some v"
  shows "padded_number_text s v \<and> mn \<le> v \<and> v \<le> mx"
proof -
  let ?ws = "takeWhile isspace_c s"
  let ?s1 = "dropWhile isspace_c s"
  let ?s2 = "snd (strtol_sign ?s1)"
  let ?ds = "takeWhile isdigit_c ?s2"
  let ?tr = "dropWhile isdigit_c ?s2"
  let ?w = "if fst (strtol_sign ?s1) then - digits_val 0 ?ds else digits_val 0 ?ds"
  obtain val endptr erange where st: "strtol s = (val, endptr, erange)"
    by (cases "strtol s") auto
  have p: "\<not> erange" "endptr \<noteq> s" "dropWhile trailing_ws endptr = []" "mn \<le> val" "val \<le> mx"
          "v = val"
    using assms by (simp_all add: parse_long_def st split: if_splits)
  have ds: "?ds \<noteq> []"
  proof
    assume "?ds = []"
    then have "strtol s = (0, s, False)" by (simp add: strtol_cases)
    then show False using st p(2) by simp
  qed
  have e: "val = ?w \<and> endptr = ?tr"
    using st p(1) ds by (simp add: strtol_cases Let_def split: if_splits)
  obtain sg where sg: "?s1 = sg @ ?s2" "sg = [] \<or> sg = ''+'' \<or> sg = ''-''"
      "fst (strtol_sign ?s1) = (sg = ''-'')"
    using strtol_sign_shape [of ?s1] by blast
  have tr: "\<forall>c\<in>set ?tr. trailing_ws c"
    using p(3) e by (simp add: dropWhile_eq_Nil_conv)
  have dig: "\<forall>c\<in>set ?ds. isdigit_c c"
    by (auto dest: set_takeWhileD)
  have sp: "\<forall>c\<in>set ?ws. isspace_c c"
    by (auto dest: set_takeWhileD)
  have v: "v = (if sg = ''-'' then - digits_val 0 ?ds else digits_val 0 ?ds)"
    using p(6) e sg(3) by simp
  have s1: "?s1 = sg @ ?ds @ ?tr"
    using sg(1) by simp
  have n: "number_text ?s1 v"
    unfolding number_text_def
    apply (rule exI [of _ sg], rule exI [of _ ?ds], rule exI [of _ ?tr])
    using s1 sg(2) ds dig tr v apply blast
    done
  have "s = ?ws @ ?s1" by simp
  then have "padded_number_text s v"
    unfolding padded_number_text_def using sp n by blast
  then show ?thesis using p(4,5,6) by simp
qed

lemma parse_bitrate_number:
  assumes "padded_number_text s v" "300000 \<le> v" "v \<le> 30000000"
  shows "parse_bitrate (Some s) = v"
proof -
  obtain ws sg ds tr where d: "s = ws @ sg @ ds @ tr" "\<forall>c\<in>set ws. isspace_c c"
      "sg = [] \<or> sg = ''+'' \<or> sg = ''-''" "ds \<noteq> []" "\<forall>c\<in>set ds. isdigit_c c"
      "\<forall>c\<in>set tr. trailing_ws c"
      "v = (if sg = ''-'' then - digits_val 0 ds else digits_val 0 ds)"
    using assms(1) unfolding padded_number_text_def number_text_def by blast
  have "parse_long (Some (ws @ sg @ ds @ tr)) MIN_BITRATE ABS_MAX_BITRATE = Some v"
    using parse_long_accepts [OF d(2,3,4,5,6,7), of MIN_BITRATE ABS_MAX_BITRATE] assms(2,3) by simp
  then show ?thesis
    by (simp add: parse_bitrate_def d(1))
qed

lemma parse_bitrate_other:
  assumes "parse_bitrate (Some s) \<noteq> - 1"
  shows "padded_number_text s (parse_bitrate (Some s))
       \<and> 300000 \<le> parse_bitrate (Some s) \<and> parse_bitrate (Some s) \<le> 30000000"
proof (cases "parse_long (Some s) MIN_BITRATE ABS_MAX_BITRATE")
  case None
  then show ?thesis using assms by (simp add: parse_bitrate_def)
next
  case (Some w)
  then show ?thesis
    using parse_long_accepted [OF Some] by (simp add: parse_bitrate_def)
qed

lemmas parse_defs =
  parse_bitrate_def parse_long_def strtol_def strtol_sign_def isspace_c_def isdigit_c_def
  trailing_ws_def

text \<open>
  Claim C9 says that \<open>parse_bitrate\<close> returns the parsed value exactly when the string is
  a decimal integer in \<open>[300 000, 30 000 000]\<close>, optionally followed by white space, and
  \<open>-1\<close> otherwise.  \<open>parse_long\<close> hands the string to \<open>strtol\<close>, which first skips
  leading white space: the line \<open>" 500000"\<close>, which does not start with a sign or a
  digit, is parsed to 500 000.
\<close>

theorem parse_bitrate_leading_space_counterexample:
  "parse_bitrate (Some '' 500000'') = 500000 \<and> \<not> number_text '' 500000'' 500000"
proof -
  have 1: "parse_bitrate (Some '' 500000'') = 500000"
    by (simp add: parse_defs)
  have 2: "\<not> number_text '' 500000'' 500000"
  proof
    assume "number_text '' 500000'' 500000"
    then obtain sg ds tr where d: "'' 500000'' = sg @ ds @ tr"
        "sg = [] \<or> sg = ''+'' \<or> sg = ''-''" "ds \<noteq> []" "\<forall>c\<in>set ds. isdigit_c c"
      unfolding number_text_def by blast
    obtain c ds' where c: "ds = c # ds'" using d(3) by (cases ds) auto
    then have dc: "isdigit_c c" using d(4) by simp
    from d(2) show False
    proof (elim disjE)
      assume "sg = []"
      then have "c = CHR '' ''" using d(1) c by simp
      then show False using dc by (simp add: isdigit_c_def)
    next
      assume "sg = ''+''"
      then show False using d(1) by simp
    next
      assume "sg = ''-''"
      then show False using d(1) by simp
    qed
  qed
  show ?thesis using 1 2 by blast
qed

text \<open>
  Claim C9 as amended: \<open>parse_bitrate\<close> returns the value \<open>v\<close> whenever the string
  consists of optional white space (as \<open>strtol\<close> skips it), an optional sign, decimal
  digits of value \<open>v\<close> in \<open>[300 000, 30 000 000]\<close>, and then only blanks, tabs, newlines
  and carriage returns.  For every other string, among them the empty string,
  non-numeric input, trailing garbage and values outside the range, and for a NULL
  pointer, it returns \<open>-1\<close>.
\<close>

theorem parse_bitrate_accepts_padded_numbers:
  "parse_bitrate None = - 1
   \<and> (padded_number_text s v \<and> 300000 \<le> v \<and> v \<le> 30000000 \<longrightarrow> parse_bitrate (Some s) = v)
   \<and> ((\<nexists>w. padded_number_text s w \<and> 300000 \<le> w \<and> w \<le> 30000000)
         \<longrightarrow> parse_bitrate (Some s) = - 1)"
proof -
  have n: "parse_bitrate None = - 1"
    by (simp add: parse_bitrate_def parse_long_def)
  show ?thesis
    using n parse_bitrate_number [of s v] parse_bitrate_other [of s] by blast
qed

text \<open>
  The witness: the line \<open>" +500000"\<close> followed by a newline is accepted; the line
  \<open>"500000x"\<close> is no padded number and is rejected, as are the empty line, a word, and
  the values 299 999 and 30 000 001.
\<close>

theorem parse_bitrate_accepts_padded_numbers_witness:
  "padded_number_text ('' +500000'' @ [CHR 0x0A]) 500000
   \<and> parse_bitrate (Some ('' +500000'' @ [CHR 0x0A])) = 500000
   \<and> (\<nexists>w. padded_number_text ''500000x'' w \<and> 300000 \<le> w \<and> w \<le> 30000000)
   \<and> parse_bitrate (Some ''500000x'') = - 1
   \<and> parse_bitrate (Some []) = - 1
   \<and> parse_bitrate (Some ''fast'') = - 1
   \<and> parse_bitrate (Some ''299999'') = - 1
   \<and> parse_bitrate (Some ''30000001'') = - 1
   \<and> parse_bitrate (Some ''300000'') = 300000
   \<and> parse_bitrate (Some ''30000000'') = 30000000"
proof -
  have nt: "number_text (''+500000'' @ [CHR 0x0A]) 500000"
    unfolding number_text_def
    apply (rule exI [of _ "''+''"], rule exI [of _ "''500000''"], rule exI [of _ "[CHR 0x0A]"])
    apply (simp add: isdigit_c_def trailing_ws_def)
    done
  have p: "padded_number_text ('' +500000'' @ [CHR 0x0A]) 500000"
    unfolding padded_number_text_def
    apply (rule exI [of _ "'' ''"], rule exI [of _ "''+500000'' @ [CHR 0x0A]"])
    using nt apply (simp add: isspace_c_def)
    done
  have a: "parse_bitrate (Some ('' +500000'' @ [CHR 0x0A])) = 500000"
    using parse_bitrate_accepts_padded_numbers [of "'' +500000'' @ [CHR 0x0A]" 500000] p by simp
  have x: "parse_bitrate (Some ''500000x'') = - 1"
    by (simp add: parse_defs)
  have nx: "\<nexists>w. padded_number_text ''500000x'' w \<and> 300000 \<le> w \<and> w \<le> 30000000"
  proof
    assume "\<exists>w. padded_number_text ''500000x'' w \<and> 300000 \<le> w \<and> w \<le> 30000000"
    then obtain w where w: "padded_number_text ''500000x'' w" "300000 \<le> w" "w \<le> 30000000"
      by blast
    then have "parse_bitrate (Some ''500000x'') = w"
      using parse_bitrate_accepts_padded_numbers [of "''500000x''" w] by blast
    then show False using x w(2) by simp
  qed
  have b: "parse_bitrate (Some ''500000x'') = - 1"
    using parse_bitrate_accepts_padded_numbers [of "''500000x''" 0] nx by blast
  have e: "parse_bitrate (Some []) = - 1" "parse_bitrate (Some ''fast'') = - 1"
          "parse_bitrate (Some ''299999'') = - 1" "parse_bitrate (Some ''30000001'') = - 1"
          "parse_bitrate (Some ''300000'') = 300000" "parse_bitrate (Some ''30000000'') = 30000000"
    by (simp_all add: parse_defs)
  show ?thesis using p a nx b e by blast
qed

end
